(* ===== verification/Prelude.thy ===== *)
theory Prelude
  imports Main
begin

text \<open>Shared vocabulary of the GOTag development: the Python exceptions the
  scripts can raise, the file system they read, and the list function
  \<open>chunks\<close> that groups a sequence into pages.\<close>

named_theorems model_defs "definitions of the model unfolded when a witness is evaluated"
named_theorems chunk_simps "rewrite rules for chunks"

type_synonym path = string

text \<open>The readable text files of the machine: a path names its contents.\<close>
type_synonym files = "path \<rightharpoonup> string"

datatype py_error =
    FileNotFoundError path
  | KeyError string
  | TypeError string
  | ZeroDivisionError
  | CsvError string

type_synonym 'a py_result = "py_error + 'a"

text \<open>Sequencing of statements that may raise: the first exception aborts
  the rest, as an uncaught Python exception does.\<close>

definition py_bind :: "'a py_result \<Rightarrow> ('a \<Rightarrow> 'b py_result) \<Rightarrow> 'b py_result" where
  "py_bind m f = (case m of Inl e \<Rightarrow> Inl e | Inr x \<Rightarrow> f x)"

text \<open>The two line-break characters of text files.\<close>

abbreviation NL :: char where "NL \<equiv> CHR 0x0A"
abbreviation CR :: char where "CR \<equiv> CHR 0x0D"

section \<open>Grouping a list into chunks\<close>

fun chunks :: "nat \<Rightarrow> 'a list \<Rightarrow> 'a list list" where
  "chunks 0 xs = []"
| "chunks (Suc n) [] = []"
| "chunks (Suc n) (x # xs) = (x # take n xs) # chunks (Suc n) (drop n xs)"

text \<open>Prepending a prefix to the first of a list of pages; with no page, the
  prefix alone makes one page, unless it is empty.\<close>

definition with_prefix :: "'a list \<Rightarrow> 'a list list \<Rightarrow> 'a list list" where
  "with_prefix pre pgs =
     (case pgs of [] \<Rightarrow> (if pre = [] then [] else [pre]) | p # ps \<Rightarrow> (pre @ p) # ps)"

section \<open>Lemmas\<close>

lemma py_bind_simps [simp]:
  "py_bind (Inl e) f = Inl e"
  "py_bind (Inr x) f = f x"
  by (simp_all add: py_bind_def)

lemma py_bind_eq_Inr [simp]:
  "(py_bind m f = Inr y) \<longleftrightarrow> (\<exists>x. m = Inr x \<and> f x = Inr y)"
  by (cases m) simp_all

lemma py_bind_assoc:
  "py_bind (py_bind m f) g = py_bind m (\<lambda>x. py_bind (f x) g)"
  by (cases m) simp_all

lemma py_bind_eq_Inl:
  "(py_bind m f = Inl e) \<longleftrightarrow> m = Inl e \<or> (\<exists>x. m = Inr x \<and> f x = Inl e)"
  by (cases m) simp_all

lemma chunks_Nil [simp, chunk_simps]: "chunks n [] = []"
  by (cases n) simp_all

lemma chunks_nonempty_eq:
  "0 < n \<Longrightarrow> xs \<noteq> [] \<Longrightarrow> chunks n xs = take n xs # chunks n (drop n xs)"
  by (cases n; cases xs) simp_all

lemma chunks_short [chunk_simps]:
  "0 < n \<Longrightarrow> xs \<noteq> [] \<Longrightarrow> length xs \<le> n \<Longrightarrow> chunks n xs = [xs]"
  by (simp add: chunks_nonempty_eq)

lemma concat_chunks [simp, chunk_simps]: "0 < n \<Longrightarrow> concat (chunks n xs) = xs"
  by (induction n xs rule: chunks.induct) simp_all

lemma chunks_not_Nil [simp, chunk_simps]: "x \<in> set (chunks n xs) \<Longrightarrow> x \<noteq> []"
  by (induction n xs rule: chunks.induct) auto

lemma length_chunk_le: "x \<in> set (chunks n xs) \<Longrightarrow> length x \<le> n"
  by (induction n xs rule: chunks.induct) auto

lemma chunks_eq_Nil_iff [simp]: "(chunks n xs = []) \<longleftrightarrow> n = 0 \<or> xs = []"
  by (cases n; cases xs) simp_all

lemma length_chunks: "length (chunks n xs) = (length xs + n - 1) div n"
proof (induction n xs rule: chunks.induct)
  case (3 n x xs)
  have "(length (x # xs) + Suc n - 1) div Suc n = (length xs + Suc n) div Suc n"
    by simp
  also have "\<dots> = length xs div Suc n + 1"
    by (rule div_add_self2) simp
  finally show ?case using 3
    by (cases "length xs \<le> n") auto
qed simp_all

lemma chunks_append_full:
  "length xs = n \<Longrightarrow> 0 < n \<Longrightarrow> chunks n (xs @ ys) = (if xs = [] then chunks n ys else xs # chunks n ys)"
  by (cases n; cases xs) simp_all

lemma chunks_snoc:
  "0 < n \<Longrightarrow> chunks n (xs @ [y]) =
     (if length xs mod n = 0 then chunks n xs @ [[y]]
      else butlast (chunks n xs) @ [last (chunks n xs) @ [y]])"
proof (induction n xs rule: chunks.induct)
  case (3 n x xs)
  show ?case
  proof (cases "length xs \<le> n")
    case True
    then show ?thesis using 3 by (auto simp: Suc_le_eq mod_if)
  next
    case False
    then show ?thesis using 3 by (auto simp: le_mod_geq not_le)
  qed
qed simp_all

lemma chunks_nth_nth:
  "0 < n \<Longrightarrow> k < length xs \<Longrightarrow> chunks n xs ! (k div n) ! (k mod n) = xs ! k"
proof (induction n xs arbitrary: k rule: chunks.induct)
  case (3 n x xs)
  show ?case
  proof (cases "k < Suc n")
    case True
    then show ?thesis by (auto simp: nth_Cons' nth_take)
  next
    case False
    define j where "j = k - Suc n"
    have k: "k = j + Suc n" using False by (simp add: j_def)
    have "j < length (drop n xs)" using "3.prems" k by simp
    then have "chunks (Suc n) (drop n xs) ! (j div Suc n) ! (j mod Suc n) = drop n xs ! j"
      using "3.IH" [of j] by simp
    moreover have "k div Suc n = j div Suc n + 1"
      unfolding k by (rule div_add_self2) simp
    moreover have "k mod Suc n = j mod Suc n"
      unfolding k by (rule mod_add_self2)
    moreover have "(x # xs) ! k = drop n xs ! j"
      using k "3.prems" by (simp add: add.commute)
    ultimately show ?thesis by simp
  qed
qed simp_all

lemma length_last_chunks:
  "0 < n \<Longrightarrow> xs \<noteq> [] \<Longrightarrow>
   length (last (chunks n xs)) = (if length xs mod n = 0 then n else length xs mod n)"
proof (induction n xs rule: chunks.induct)
  case (3 n x xs)
  show ?case
  proof (cases "length xs \<le> n")
    case True
    then show ?thesis by (auto simp: mod_if)
  next
    case False
    then have "drop n xs \<noteq> []" by simp
    moreover have "length (x # xs) mod Suc n = length (drop n xs) mod Suc n"
      using False by (simp add: le_mod_geq)
    ultimately show ?thesis using "3.IH" by simp
  qed
qed simp_all

lemma with_prefix_Nil [simp]: "with_prefix pre [] = (if pre = [] then [] else [pre])"
  by (simp add: with_prefix_def)

lemma with_prefix_Cons [simp]: "with_prefix pre (p # ps) = (pre @ p) # ps"
  by (simp add: with_prefix_def)

lemma with_prefix_snoc:
  "pgs \<noteq> [] \<Longrightarrow> with_prefix pre (pgs @ [q]) = with_prefix pre pgs @ [q]"
  by (cases pgs) simp_all

lemma with_prefix_extend_last:
  "pgs \<noteq> [] \<Longrightarrow>
   with_prefix pre (butlast pgs @ [last pgs @ ys]) =
   butlast (with_prefix pre pgs) @ [last (with_prefix pre pgs) @ ys]"
proof (cases pgs)
  case (Cons p ps)
  then show ?thesis by (cases "ps = []") simp_all
qed simp

lemma length_with_prefix:
  "pgs \<noteq> [] \<Longrightarrow> length (with_prefix pre pgs) = length pgs"
  by (cases pgs) simp_all

lemma nth_with_prefix:
  "k < length pgs \<Longrightarrow> with_prefix pre pgs ! k = (if k = 0 then pre @ pgs ! 0 else pgs ! k)"
  by (cases pgs) (auto simp: nth_Cons')

lemma last_with_prefix_nonempty:
  "pgs \<noteq> [] \<Longrightarrow> last pgs \<noteq> [] \<Longrightarrow> last (with_prefix pre pgs) \<noteq> []"
  by (cases pgs) (auto split: if_splits)

lemma last_chunks_nonempty:
  "0 < n \<Longrightarrow> xs \<noteq> [] \<Longrightarrow> last (chunks n xs) \<noteq> []"
  using chunks_not_Nil [of "last (chunks n xs)" n xs] by simp

lemma chunks_map: "chunks n (map f xs) = map (map f) (chunks n xs)"
  by (induction n xs rule: chunks.induct) (simp_all add: take_map drop_map)

lemma chunks_index_bounds:
  "0 < n \<Longrightarrow> k < length xs \<Longrightarrow>
   k div n < length (chunks n xs) \<and> k mod n < length (chunks n xs ! (k div n))"
proof (induction n xs arbitrary: k rule: chunks.induct)
  case (3 n x xs)
  show ?case
  proof (cases "k < Suc n")
    case True
    with "3.prems" show ?thesis by simp
  next
    case False
    define j where "j = k - Suc n"
    have k: "k = j + Suc n" using False by (simp add: j_def)
    have "j < length (drop n xs)" using "3.prems" k by simp
    then have "j div Suc n < length (chunks (Suc n) (drop n xs)) \<and>
        j mod Suc n < length (chunks (Suc n) (drop n xs) ! (j div Suc n))"
      using "3.IH" [of j] by simp
    moreover have "k div Suc n = j div Suc n + 1"
      unfolding k by (rule div_add_self2) simp
    moreover have "k mod Suc n = j mod Suc n"
      unfolding k by (rule mod_add_self2)
    ultimately show ?thesis by simp
  qed
qed simp_all

lemma map_of_rev_distinct: "distinct (map fst xs) \<Longrightarrow> map_of (rev xs) = map_of xs"
proof
  fix k
  assume d: "distinct (map fst xs)"
  show "map_of (rev xs) k = map_of xs k"
  proof (cases "k \<in> fst ` set xs")
    case True
    then obtain v where kv: "(k, v) \<in> set xs" by auto
    from d have "distinct (map fst (rev xs))" by (simp add: rev_map [symmetric])
    with d kv show ?thesis by (simp add: map_of_is_SomeI)
  next
    case False
    then have "map_of xs k = None" "map_of (rev xs) k = None"
      by (simp_all add: map_of_eq_None_iff)
    then show ?thesis by simp
  qed
qed

lemma map_of_const_keys:
  "map_of (map (\<lambda>k. (k, v)) ks) k = (if k \<in> set ks then Some v else None)"
  by (induction ks) auto

end
