(* ===== verification/Instrument.thy ===== *)
theory Instrument
  imports Prelude
begin

text \<open>The inventory record: class \<open>Instrument\<close> of \<^verbatim>\<open>src/main.py\<close> and
  \<^verbatim>\<open>src/make_tags.py\<close> (identical in both files). An instrument wraps the row
  dictionary that \<open>csv.DictReader\<close> produced; every accessor is a dictionary
  subscript, which raises \<open>KeyError\<close> when the header lacks the column.\<close>

section \<open>Python values of a CSV row\<close>

text \<open>A value of the row dictionary is a field string, or \<open>None\<close>, the
  \<open>restval\<close> DictReader stores for the columns a short row lacks.\<close>

datatype pyval = PStr string | PNone

type_synonym row_dict = "string \<rightharpoonup> pyval"

text \<open>\<open>str(v)\<close>, as an f-string renders a value.\<close>

fun py_str :: "pyval \<Rightarrow> string" where
  "py_str (PStr s) = s"
| "py_str PNone = ''None''"

text \<open>\<open>len(v)\<close>: defined on strings, a \<open>TypeError\<close> on \<open>None\<close>.\<close>

fun py_len :: "pyval \<Rightarrow> nat py_result" where
  "py_len (PStr s) = Inr (length s)"
| "py_len PNone = Inl (TypeError ''object of type 'NoneType' has no len()'')"

text \<open>\<open>d[k]\<close> on a dictionary.\<close>

definition dict_get :: "row_dict \<Rightarrow> string \<Rightarrow> pyval py_result" where
  "dict_get d k = (case d k of None \<Rightarrow> Inl (KeyError k) | Some v \<Rightarrow> Inr v)"

section \<open>Class Instrument\<close>

record instrument =
  row :: row_dict

definition category :: "instrument \<Rightarrow> pyval py_result" where
  "category inst = dict_get (row inst) ''Category''"

definition model :: "instrument \<Rightarrow> pyval py_result" where
  "model inst = dict_get (row inst) ''Model''"

definition serial_no :: "instrument \<Rightarrow> pyval py_result" where
  "serial_no inst = dict_get (row inst) ''Serial NO''"

definition size_value :: "instrument \<Rightarrow> pyval py_result" where
  "size_value inst = dict_get (row inst) ''Size''"

definition student :: "instrument \<Rightarrow> pyval py_result" where
  "student inst = dict_get (row inst) ''Student''"

text \<open>\<open>self.row['PRINT'] == 'TRUE'\<close>: an exact, case-sensitive comparison;
  \<open>None == 'TRUE'\<close> is \<open>False\<close>.\<close>

definition print_please :: "instrument \<Rightarrow> bool py_result" where
  "print_please inst = py_bind (dict_get (row inst) ''PRINT'') (\<lambda>v. Inr (v = PStr ''TRUE''))"

text \<open>An instrument read from a complete row of the six columns of the
  inventory header, in header order.\<close>

definition full_row :: "string \<Rightarrow> string \<Rightarrow> string \<Rightarrow> string \<Rightarrow> string \<Rightarrow> string \<Rightarrow> instrument" where
  "full_row cat mdl serial sz stud prt =
     \<lparr>row = [''Category'' \<mapsto> PStr cat, ''Model'' \<mapsto> PStr mdl, ''Serial NO'' \<mapsto> PStr serial,
             ''Size'' \<mapsto> PStr sz, ''Student'' \<mapsto> PStr stud, ''PRINT'' \<mapsto> PStr prt]\<rparr>"

lemmas accessor_defs [model_defs] =
  category_def model_def serial_no_def size_value_def student_def print_please_def dict_get_def

section \<open>Lemmas\<close>

lemma dict_get_Inr_iff [simp]: "(dict_get d k = Inr v) \<longleftrightarrow> d k = Some v"
  by (simp add: dict_get_def split: option.split)

lemma dict_get_Inl_iff [simp]: "(dict_get d k = Inl e) \<longleftrightarrow> d k = None \<and> e = KeyError k"
  by (auto simp: dict_get_def split: option.split)

lemma print_please_cases:
  "print_please inst =
     (case row inst ''PRINT'' of None \<Rightarrow> Inl (KeyError ''PRINT'')
      | Some v \<Rightarrow> Inr (v = PStr ''TRUE''))"
  by (simp add: print_please_def dict_get_def split: option.split)

lemma print_please_True_iff:
  "(print_please inst = Inr True) \<longleftrightarrow> row inst ''PRINT'' = Some (PStr ''TRUE'')"
  by (simp add: print_please_cases split: option.split)

end
