(* ===== verification/Formatter.thy ===== *)
theory Formatter
  imports Instrument
begin

text \<open>Tag text: \<open>text_from_instrument\<close>, \<open>replace_new_lines\<close>, the hard-coded
  \<open>return_address\<close> of \<^verbatim>\<open>src/main.py\<close> and the file-read \<open>address\<close> of
  \<^verbatim>\<open>src/make_tags.py\<close>. Python's \<open>str.replace\<close> is modelled in general (a
  left-to-right scan replacing non-overlapping occurrences) and the
  newline replacement is shown equal to a per-character rewriting.\<close>

section \<open>str.replace\<close>

function replace_scan :: "string \<Rightarrow> string \<Rightarrow> string \<Rightarrow> string" where
  "replace_scan old new [] = []"
| "replace_scan old new (c # cs) =
     (if old \<noteq> [] \<and> take (length old) (c # cs) = old
      then new @ replace_scan old new (drop (length old) (c # cs))
      else c # replace_scan old new cs)"
  by pat_completeness auto
termination
  by (relation "measure (\<lambda>(old, new, s). length s)") auto

text \<open>\<open>s.replace(old, new)\<close>. An empty \<open>old\<close> matches before every character
  and at the end: \<open>'ab'.replace('', 'X') == 'XaXbX'\<close>.\<close>

definition py_replace :: "string \<Rightarrow> string \<Rightarrow> string \<Rightarrow> string" where
  "py_replace s old new =
     (if old = [] then new @ concat (map (\<lambda>c. c # new) s) else replace_scan old new s)"

definition replace_new_lines :: "string \<Rightarrow> string" where
  "replace_new_lines string = py_replace string [NL] ''<br/>''"

section \<open>Reading a text file\<close>

text \<open>\<open>open(path, 'r')\<close> reads in universal-newline mode: \<open>\r\n\<close> and a lone
  \<open>\r\<close> both arrive as \<open>\n\<close>.\<close>

fun universal_newlines :: "string \<Rightarrow> string" where
  "universal_newlines [] = []"
| "universal_newlines [c] = (if c = CR then [NL] else [c])"
| "universal_newlines (c # d # cs) =
     (if c = CR then NL # (if d = NL then universal_newlines cs else universal_newlines (d # cs))
      else c # universal_newlines (d # cs))"

definition read_text :: "files \<Rightarrow> path \<Rightarrow> string py_result" where
  "read_text fs p = (case fs p of None \<Rightarrow> Inl (FileNotFoundError p)
                     | Some raw \<Rightarrow> Inr (universal_newlines raw))"

text \<open>\<open>address(txt_path)\<close> of \<^verbatim>\<open>make_tags.py\<close>.\<close>

definition address :: "files \<Rightarrow> path \<Rightarrow> string py_result" where
  "address fs txt_path = read_text fs txt_path"

text \<open>\<open>return_address\<close> of \<^verbatim>\<open>main.py\<close>: the backslashes after the opening
  quotes and after the second line swallow the adjacent line breaks.\<close>

definition return_address :: string where
  "return_address = ''GO! Orchestra'' @ [NL] @ ''Org nr. 922 581 762''"

section \<open>The tag body\<close>

text \<open>The f-string of \<open>text_from_instrument\<close>, character for character: the
  four-space source indentation belongs to every line, and the last line
  ends in the four spaces before the closing quotes.\<close>

definition tag_template :: "string \<Rightarrow> string \<Rightarrow> string \<Rightarrow> string \<Rightarrow> string \<Rightarrow> string" where
  "tag_template cat mdl serial sz stud =
     ''    '' @ cat @ [NL] @
     ''    '' @ [NL] @
     ''    '' @ mdl @ [NL] @
     ''    Serial Nr: '' @ serial @ [NL] @
     ''    Size: '' @ sz @ [NL] @
     [NL] @
     ''    '' @ stud @ ''    ''"

definition text_from_instrument :: "instrument \<Rightarrow> string py_result" where
  "text_from_instrument inst =
     py_bind (category inst) (\<lambda>cat.
     py_bind (model inst) (\<lambda>mdl.
     py_bind (serial_no inst) (\<lambda>serial0.
     py_bind (py_len serial0) (\<lambda>l.
     (let serial = (if l = 0 then PStr ''N/A'' else serial0) in
     py_bind (size_value inst) (\<lambda>sz.
     py_bind (student inst) (\<lambda>stud.
     Inr (tag_template (py_str cat) (py_str mdl) (py_str serial)
                       (py_str sz) (py_str stud)))))))))"

section \<open>Lemmas\<close>

lemma replace_scan_single:
  "replace_scan [c] new s = concat (map (\<lambda>x. if x = c then new else [x]) s)"
  by (induction s) simp_all

lemma replace_scan_prefix:
  "old \<noteq> [] \<Longrightarrow> replace_scan old new (old @ s) = new @ replace_scan old new s"
  by (cases old) simp_all

lemma replace_scan_no_match:
  "take (length old) (c # cs) \<noteq> old \<Longrightarrow> replace_scan old new (c # cs) = c # replace_scan old new cs"
  by simp

lemma replace_new_lines_Cons:
  "replace_new_lines (c # cs) = (if c = NL then ''<br/>'' @ replace_new_lines cs else c # replace_new_lines cs)"
  by (simp add: replace_new_lines_def py_replace_def)

lemma tag_template_eq:
  "tag_template cat mdl serial sz stud =
     ''    '' @ cat @ [NL] @ ''    '' @ [NL] @ ''    '' @ mdl @ [NL] @ ''    Serial Nr: '' @ serial @ [NL] @
     ''    Size: '' @ sz @ [NL, NL] @ ''    '' @ stud @ ''    ''"
  by (simp add: tag_template_def)

text \<open>C5. The tag text: for a record whose five columns hold strings, the
  f-string of \<open>text_from_instrument\<close> with \<open>N/A\<close> for an empty serial
  number. Every line carries the four spaces of the source indentation, and
  the text ends in four spaces.\<close>

theorem text_from_instrument_fields:
  assumes "row inst ''Category'' = Some (PStr cat)" "row inst ''Model'' = Some (PStr mdl)"
    "row inst ''Serial NO'' = Some (PStr serial)" "row inst ''Size'' = Some (PStr sz)"
    "row inst ''Student'' = Some (PStr stud)"
  shows "text_from_instrument inst =
    Inr (''    '' @ cat @ [NL] @ ''    '' @ [NL] @ ''    '' @ mdl @ [NL] @
         ''    Serial Nr: '' @ (if serial = [] then ''N/A'' else serial) @ [NL] @
         ''    Size: '' @ sz @ [NL, NL] @ ''    '' @ stud @ ''    '')"
  using assms by (simp add: text_from_instrument_def accessor_defs tag_template_eq)

theorem text_from_instrument_fields_witness:
  "text_from_instrument (full_row ''Violin'' ''Yamaha V5'' '''' ''4/4'' ''Kari'' ''TRUE'') =
    Inr (''    Violin'' @ [NL] @ ''    '' @ [NL] @ ''    Yamaha V5'' @ [NL] @
         ''    Serial Nr: N/A'' @ [NL] @ ''    Size: 4/4'' @ [NL, NL] @ ''    Kari    '')"
  using text_from_instrument_fields [of "full_row ''Violin'' ''Yamaha V5'' '''' ''4/4'' ''Kari'' ''TRUE''"
      "''Violin''" "''Yamaha V5''" "''''" "''4/4''" "''Kari''"]
  by (simp add: full_row_def)

text \<open>C6. Formatting raises exactly when a column is missing from the row
  (\<open>KeyError\<close>) or the serial number is DictReader's \<open>None\<close> of a short row
  (\<open>len(None)\<close>, a \<open>TypeError\<close>); a \<open>None\<close> in any other column is rendered
  as the text \<open>None\<close>.\<close>

theorem text_from_instrument_raises:
  "(\<exists>e. text_from_instrument inst = Inl e) \<longleftrightarrow>
     row inst ''Category'' = None \<or> row inst ''Model'' = None \<or> row inst ''Serial NO'' = None \<or>
     row inst ''Serial NO'' = Some PNone \<or> row inst ''Size'' = None \<or> row inst ''Student'' = None"
proof -
  have len: "(\<exists>e. py_len v = Inl e) \<longleftrightarrow> v = PNone" for v
    by (cases v) simp_all
  show ?thesis
    by (auto simp: text_from_instrument_def accessor_defs py_bind_def len
        split: option.split sum.split)
qed

text \<open>C7. \<open>replace_new_lines\<close>, a call of the general \<open>str.replace\<close>, is the
  per-character rewriting of each line feed into the break marker.\<close>

theorem replace_new_lines_chars:
  "replace_new_lines s = concat (map (\<lambda>c. if c = NL then ''<br/>'' else [c]) s)"
  by (simp add: replace_new_lines_def py_replace_def replace_scan_single)

text \<open>C9. Round trip: replacing the break markers back by line feeds
  restores a text that contains no \<open><\<close> of its own.\<close>

theorem replace_new_lines_roundtrip:
  "CHR ''<'' \<notin> set s \<Longrightarrow> py_replace (replace_new_lines s) ''<br/>'' [NL] = s"
proof (induction s)
  case Nil
  then show ?case by (simp add: replace_new_lines_def py_replace_def)
next
  case (Cons c cs)
  then have IH: "replace_scan ''<br/>'' [NL] (replace_new_lines cs) = cs"
    by (simp add: py_replace_def)
  show ?case
  proof (cases "c = NL")
    case True
    then show ?thesis
      using replace_scan_prefix [of "''<br/>''" "[NL]" "replace_new_lines cs"] IH
      by (simp add: replace_new_lines_Cons py_replace_def)
  next
    case False
    with Cons.prems have "take (length ''<br/>'') (c # replace_new_lines cs) \<noteq> ''<br/>''"
      by auto
    with False IH show ?thesis
      by (simp only: replace_new_lines_Cons py_replace_def replace_scan_no_match if_False) simp
  qed
qed

theorem replace_new_lines_roundtrip_witness:
  "CHR ''<'' \<notin> set return_address
   \<and> py_replace (replace_new_lines return_address) ''<br/>'' [NL] = return_address"
proof -
  have h: "CHR ''<'' \<notin> set return_address" by (simp add: return_address_def)
  show ?thesis using h replace_new_lines_roundtrip [OF h] by simp
qed

end
