(* ===== verification/Canvas.thy ===== *)
theory Canvas
  imports Prelude
begin

text \<open>The rendering backend as the scripts use it: reportlab's \<open>Canvas\<close>
  (\<open>setFont\<close>, \<open>showPage\<close>, \<open>save\<close>), \<open>Frame(...).addFromList\<close> and
  \<open>Paragraph\<close> with the two \<open>ParagraphStyle\<close>s of the source. The canvas is a
  buffer of finished pages and the operator stream of the page being drawn;
  \<open>save\<close> closes a page whose stream is not empty and returns the document.
  Lengths are in millimetres (the source multiplies by \<open>mm\<close>).\<close>

record paragraph_style =
  style_name :: string
  font_name :: string
  font_size :: nat
  space_after :: nat

text \<open>\<open>address_style()\<close> and \<open>body_style()\<close>; reportlab's default
  \<open>spaceAfter\<close> is 0.\<close>

definition address_style :: paragraph_style where
  "address_style = \<lparr>style_name = ''Address'', font_name = ''Courier'', font_size = 12, space_after = 10\<rparr>"

definition body_style :: paragraph_style where
  "body_style = \<lparr>style_name = ''Body'', font_name = ''Courier'', font_size = 12, space_after = 0\<rparr>"

datatype flowable = Paragraph string paragraph_style

text \<open>\<open>Frame(x, y, width, height, showBoundary=1)\<close>; \<open>(x, y)\<close> is the lower
  left corner, measured from the lower left corner of the page.\<close>

record frame =
  frame_x :: nat
  frame_y :: nat
  frame_width :: nat
  frame_height :: nat
  show_boundary :: bool

datatype draw_op = SetFont string nat | DrawFrame frame "flowable list"

record canvas =
  cv_filename :: path
  cv_pagesize :: "nat \<times> nat"
  cv_pages :: "draw_op list list"
  cv_code :: "draw_op list"

datatype pdf = Pdf path "draw_op list list"

definition A4 :: "nat \<times> nat" where
  "A4 = (210, 297)"

definition new_canvas :: "path \<Rightarrow> nat \<times> nat \<Rightarrow> canvas" where
  "new_canvas filename pagesize =
     \<lparr>cv_filename = filename, cv_pagesize = pagesize, cv_pages = [], cv_code = []\<rparr>"

definition set_font :: "string \<Rightarrow> nat \<Rightarrow> canvas \<Rightarrow> canvas" where
  "set_font name sz c = c\<lparr>cv_code := cv_code c @ [SetFont name sz]\<rparr>"

definition show_page :: "canvas \<Rightarrow> canvas" where
  "show_page c = c\<lparr>cv_pages := cv_pages c @ [cv_code c], cv_code := []\<rparr>"

definition add_from_list :: "frame \<Rightarrow> flowable list \<Rightarrow> canvas \<Rightarrow> canvas" where
  "add_from_list f parts c = c\<lparr>cv_code := cv_code c @ [DrawFrame f parts]\<rparr>"

definition save :: "canvas \<Rightarrow> pdf" where
  "save c = (let c' = (if cv_code c \<noteq> [] then show_page c else c) in Pdf (cv_filename c') (cv_pages c'))"

text \<open>All pages of a canvas, the open one last.\<close>

definition all_pages :: "canvas \<Rightarrow> draw_op list list" where
  "all_pages c = cv_pages c @ [cv_code c]"

text \<open>The frames drawn on a page, in order.\<close>

fun page_frames :: "draw_op list \<Rightarrow> (frame \<times> flowable list) list" where
  "page_frames [] = []"
| "page_frames (SetFont n s # ops) = page_frames ops"
| "page_frames (DrawFrame f ps # ops) = (f, ps) # page_frames ops"

text \<open>Every frame drawn so far, page after page, in drawing order.\<close>

definition drawn :: "canvas \<Rightarrow> (frame \<times> flowable list) list" where
  "drawn c = concat (map page_frames (all_pages c))"

lemmas canvas_defs [model_defs] =
  new_canvas_def set_font_def show_page_def add_from_list_def save_def A4_def
  address_style_def body_style_def

lemma all_pages_show_page [simp]: "all_pages (show_page c) = all_pages c @ [[]]"
  by (simp add: all_pages_def show_page_def)

lemma all_pages_add_from_list [simp]:
  "all_pages (add_from_list f ps c) = butlast (all_pages c) @ [last (all_pages c) @ [DrawFrame f ps]]"
  by (simp add: all_pages_def add_from_list_def)

lemma canvas_frame_simps [simp]:
  "cv_filename (show_page c) = cv_filename c"
  "cv_pagesize (show_page c) = cv_pagesize c"
  "cv_filename (add_from_list f ps c) = cv_filename c"
  "cv_pagesize (add_from_list f ps c) = cv_pagesize c"
  by (simp_all add: show_page_def add_from_list_def)

lemma save_nonempty: "cv_code c \<noteq> [] \<Longrightarrow> save c = Pdf (cv_filename c) (all_pages c)"
  by (simp add: save_def show_page_def all_pages_def)

lemma page_frames_append [simp]: "page_frames (xs @ ys) = page_frames xs @ page_frames ys"
  by (induction xs rule: page_frames.induct) simp_all

lemma cv_code_last_all_pages: "cv_code c = last (all_pages c)"
  by (simp add: all_pages_def)


lemma drawn_show_page [simp]: "drawn (show_page c) = drawn c"
  by (simp add: drawn_def)

lemma drawn_add_from_list [simp]: "drawn (add_from_list f ps c) = drawn c @ [(f, ps)]"
  by (simp add: drawn_def all_pages_def add_from_list_def)
end
