(* ===== verification/Layout.thy ===== *)
theory Layout
  imports Formatter Canvas
begin

text \<open>The page layout engine: the \<open>for instrument in instruments\<close> loop of
  \<open>main()\<close> (\<^verbatim>\<open>src/make_tags.py\<close> lines 101--133, \<^verbatim>\<open>src/main.py\<close> lines
  90--122). Its state is the slot counter \<open>tag_index\<close>, the page counter
  \<open>page\<close> and the canvas. One iteration skips a record not flagged for
  printing, opens a new page when the grid is full (\<open>open_slot\<close>), and draws
  the tag in its cell (\<open>place_tag\<close>).\<close>

section \<open>Configuration and state\<close>

text \<open>The locals \<open>tag_width\<close>, \<open>tag_height\<close> (in mm), \<open>rows\<close> and \<open>cols\<close>.\<close>

record config =
  tag_width :: nat
  tag_height :: nat
  rows :: nat
  cols :: nat

definition main_config :: config where
  "main_config = \<lparr>tag_width = 69, tag_height = 98, rows = 3, cols = 3\<rparr>"

definition capacity :: "config \<Rightarrow> nat" where
  "capacity cfg = rows cfg * cols cfg"

text \<open>Where the return address comes from: the literal of \<^verbatim>\<open>main.py\<close>, or
  the file that \<^verbatim>\<open>make_tags.py\<close> reads again for every tag.\<close>

datatype addr_source = AddrLiteral string | AddrFile path

fun address_of :: "files \<Rightarrow> addr_source \<Rightarrow> string py_result" where
  "address_of fs (AddrLiteral s) = Inr s"
| "address_of fs (AddrFile p) = address fs p"

record tag_state =
  tag_index :: nat
  page :: nat
  canvas :: canvas

section \<open>One iteration of the loop\<close>

text \<open>\<open>if tag_index % (rows * cols) == 0: ...\<close>; the modulus raises
  \<open>ZeroDivisionError\<close> for an empty grid.\<close>

definition open_slot :: "config \<Rightarrow> tag_state \<Rightarrow> tag_state py_result" where
  "open_slot cfg st =
     (if capacity cfg = 0 then Inl ZeroDivisionError
      else if tag_index st mod capacity cfg = 0 then
        (if page st = 0 then Inr (st\<lparr>page := 1\<rparr>)
         else Inr (st\<lparr>canvas := show_page (canvas st), page := page st + 1, tag_index := 0\<rparr>))
      else Inr st)"

text \<open>The cell of slot \<open>i\<close>: \<open>col = i % cols\<close>, \<open>row = floor(i / cols)\<close>.\<close>

definition tag_frame :: "config \<Rightarrow> nat \<Rightarrow> frame" where
  "tag_frame cfg i =
     \<lparr>frame_x = (i mod cols cfg) * tag_width cfg, frame_y = (i div cols cfg) * tag_height cfg,
      frame_width = tag_width cfg, frame_height = tag_height cfg, show_boundary = True\<rparr>"

text \<open>The two paragraphs of a tag, address first. reportlab's \<open>Paragraph\<close>
  parses its markup when it is constructed and raises \<open>ValueError\<close> on
  markup its parser rejects (an unbalanced \<open></b>\<close>, a stray \<open><\<close>); the
  model treats the constructor as total, so every success of the loop
  below holds under the assumption that reportlab accepts the markup.\<close>

definition tag_parts :: "string \<Rightarrow> string \<Rightarrow> flowable list" where
  "tag_parts addr inst_text =
     [Paragraph (replace_new_lines addr) address_style,
      Paragraph (replace_new_lines inst_text) body_style]"

definition place_tag :: "config \<Rightarrow> addr_source \<Rightarrow> files \<Rightarrow> instrument \<Rightarrow> tag_state \<Rightarrow> tag_state py_result" where
  "place_tag cfg asrc fs inst st =
     py_bind (text_from_instrument inst) (\<lambda>inst_text.
     py_bind (address_of fs asrc) (\<lambda>addr.
     Inr (st\<lparr>canvas := add_from_list (tag_frame cfg (tag_index st)) (tag_parts addr inst_text) (canvas st),
             tag_index := tag_index st + 1\<rparr>)))"

definition tag_step :: "config \<Rightarrow> addr_source \<Rightarrow> files \<Rightarrow> tag_state \<Rightarrow> instrument \<Rightarrow> tag_state py_result" where
  "tag_step cfg asrc fs st inst =
     py_bind (print_please inst) (\<lambda>pp.
       if \<not> pp then Inr st
       else py_bind (open_slot cfg st) (place_tag cfg asrc fs inst))"

fun tag_loop :: "config \<Rightarrow> addr_source \<Rightarrow> files \<Rightarrow> tag_state \<Rightarrow> instrument list \<Rightarrow> tag_state py_result" where
  "tag_loop cfg asrc fs st [] = Inr st"
| "tag_loop cfg asrc fs st (inst # insts) =
     py_bind (tag_step cfg asrc fs st inst) (\<lambda>st'. tag_loop cfg asrc fs st' insts)"

section \<open>The whole rendering\<close>

text \<open>\<open>canvas = Canvas(output, pagesize=A4)\<close>, \<open>canvas.setFont('Courier', 16)\<close>,
  \<open>tag_index = 0\<close>, \<open>page = 0\<close>.\<close>

definition init_state :: "path \<Rightarrow> tag_state" where
  "init_state output =
     \<lparr>tag_index = 0, page = 0, canvas = set_font ''Courier'' 16 (new_canvas output A4)\<rparr>"

definition render_tags :: "config \<Rightarrow> addr_source \<Rightarrow> files \<Rightarrow> path \<Rightarrow> instrument list \<Rightarrow> pdf py_result" where
  "render_tags cfg asrc fs output instruments =
     py_bind (tag_loop cfg asrc fs (init_state output) instruments) (\<lambda>st. Inr (save (canvas st)))"

section \<open>The abstract layout\<close>

text \<open>What the loop promises: the printable records, in file order, fill
  pages of \<open>rows * cols\<close> cells; record \<open>k\<close> (counting printable records
  only) is drawn in cell \<open>k mod (rows * cols)\<close> of page \<open>k div (rows * cols)\<close>.\<close>

fun tag_texts :: "instrument list \<Rightarrow> string list" where
  "tag_texts [] = []"
| "tag_texts (inst # insts) =
     (case (print_please inst, text_from_instrument inst) of
        (Inr True, Inr t) \<Rightarrow> t # tag_texts insts
      | _ \<Rightarrow> tag_texts insts)"

definition tag_ops :: "config \<Rightarrow> string \<Rightarrow> string list \<Rightarrow> draw_op list" where
  "tag_ops cfg addr texts =
     map (\<lambda>x. DrawFrame (tag_frame cfg (fst x mod capacity cfg)) (tag_parts addr (snd x)))
         (zip [0..<length texts] texts)"

definition layout_pages :: "config \<Rightarrow> string \<Rightarrow> string list \<Rightarrow> draw_op list list" where
  "layout_pages cfg addr texts = chunks (capacity cfg) (tag_ops cfg addr texts)"

text \<open>A record the loop processes without raising: its \<open>PRINT\<close> column
  exists and, if it is printed, its tag text can be formatted.\<close>

definition inst_ok :: "instrument \<Rightarrow> bool" where
  "inst_ok inst =
     (case print_please inst of
        Inl e \<Rightarrow> False
      | Inr pp \<Rightarrow> (\<not> pp \<or> (case text_from_instrument inst of Inl e \<Rightarrow> False | Inr t \<Rightarrow> True)))"

text \<open>The loop state after the tags \<open>texts\<close> have been drawn, starting from
  canvas \<open>c0\<close>.\<close>

definition layout_inv :: "config \<Rightarrow> string \<Rightarrow> canvas \<Rightarrow> string list \<Rightarrow> tag_state \<Rightarrow> bool" where
  "layout_inv cfg addr c0 texts st \<longleftrightarrow>
     (if texts = [] then st = \<lparr>tag_index = 0, page = 0, canvas = c0\<rparr>
      else page st = length (layout_pages cfg addr texts)
         \<and> tag_index st = length (last (layout_pages cfg addr texts))
         \<and> cv_filename (canvas st) = cv_filename c0
         \<and> cv_pagesize (canvas st) = cv_pagesize c0
         \<and> all_pages (canvas st) = with_prefix (cv_code c0) (layout_pages cfg addr texts))"

section \<open>Reachable states of the loop\<close>

text \<open>The states the loop can be in: the initial state, and every state one
  iteration on some record produces from a reachable one.\<close>

inductive tag_reachable :: "config \<Rightarrow> addr_source \<Rightarrow> files \<Rightarrow> path \<Rightarrow> tag_state \<Rightarrow> bool" where
  start: "tag_reachable cfg asrc fs output (init_state output)"
| step: "tag_reachable cfg asrc fs output st \<Longrightarrow> tag_step cfg asrc fs st inst = Inr st' \<Longrightarrow>
         tag_reachable cfg asrc fs output st'"

text \<open>The slot invariant: the counter stays within the grid and is zero
  exactly before the first page is opened; one page is closed per page break;
  every closed page holds the frames of all cells in order; the open page
  holds the frames of cells \<open>0 .. tag_index - 1\<close>.\<close>

definition slot_inv :: "config \<Rightarrow> tag_state \<Rightarrow> bool" where
  "slot_inv cfg st \<longleftrightarrow>
     tag_index st \<le> capacity cfg
     \<and> (page st = 0 \<longleftrightarrow> tag_index st = 0)
     \<and> length (cv_pages (canvas st)) = page st - 1
     \<and> list_all (\<lambda>p. map fst (page_frames p) = map (tag_frame cfg) [0..<capacity cfg])
          (cv_pages (canvas st))
     \<and> map fst (page_frames (cv_code (canvas st))) = map (tag_frame cfg) [0..<tag_index st]"

text \<open>The state between \<open>open_slot\<close> and \<open>place_tag\<close>: a page is open and
  the counter names a free cell of it.\<close>

definition open_inv :: "config \<Rightarrow> tag_state \<Rightarrow> bool" where
  "open_inv cfg st \<longleftrightarrow>
     tag_index st < capacity cfg
     \<and> 0 < page st
     \<and> length (cv_pages (canvas st)) = page st - 1
     \<and> list_all (\<lambda>p. map fst (page_frames p) = map (tag_frame cfg) [0..<capacity cfg])
          (cv_pages (canvas st))
     \<and> map fst (page_frames (cv_code (canvas st))) = map (tag_frame cfg) [0..<tag_index st]"

text \<open>Two frames do not overlap (they may share an edge).\<close>

definition frames_disjoint :: "frame \<Rightarrow> frame \<Rightarrow> bool" where
  "frames_disjoint f g \<longleftrightarrow>
     frame_x f + frame_width f \<le> frame_x g \<or> frame_x g + frame_width g \<le> frame_x f \<or>
     frame_y f + frame_height f \<le> frame_y g \<or> frame_y g + frame_height g \<le> frame_y f"

text \<open>A frame lies on a page of the given size.\<close>

definition frame_within :: "nat \<times> nat \<Rightarrow> frame \<Rightarrow> bool" where
  "frame_within pagesize f \<longleftrightarrow>
     frame_x f + frame_width f \<le> fst pagesize \<and> frame_y f + frame_height f \<le> snd pagesize"

text \<open>A sample inventory: twenty records, every second one flagged for
  printing, one of them without a serial number.\<close>

definition sample_inventory :: "instrument list" where
  "sample_inventory =
     map (\<lambda>i. full_row ''Violin'' ''Yamaha V5'' (if i = 4 then '''' else ''SN-1'') ''4/4'' ''Kari''
                (if even i then ''TRUE'' else ''FALSE'')) [0..<20]"

text \<open>The document the layout specification gives for the sample inventory.\<close>

definition sample_pages :: "draw_op list list" where
  "sample_pages =
     with_prefix [SetFont ''Courier'' 16] (layout_pages main_config return_address (tag_texts sample_inventory))"

section \<open>Lemmas\<close>

lemma tag_ops_snoc:
  "tag_ops cfg addr (texts @ [t]) =
   tag_ops cfg addr texts @ [DrawFrame (tag_frame cfg (length texts mod capacity cfg)) (tag_parts addr t)]"
  by (simp add: tag_ops_def)

lemma length_tag_ops [simp]: "length (tag_ops cfg addr texts) = length texts"
  by (simp add: tag_ops_def)

lemma layout_pages_snoc:
  "0 < capacity cfg \<Longrightarrow>
   layout_pages cfg addr (texts @ [t]) =
     (let op = DrawFrame (tag_frame cfg (length texts mod capacity cfg)) (tag_parts addr t);
          pgs = layout_pages cfg addr texts
      in if length texts mod capacity cfg = 0 then pgs @ [[op]]
         else butlast pgs @ [last pgs @ [op]])"
  by (simp add: layout_pages_def tag_ops_snoc chunks_snoc Let_def)

lemma layout_pages_Nil [simp]: "layout_pages cfg addr [] = []"
  by (simp add: layout_pages_def tag_ops_def)

lemma layout_pages_eq_Nil [simp]:
  "0 < capacity cfg \<Longrightarrow> (layout_pages cfg addr texts = []) \<longleftrightarrow> texts = []"
  by (simp add: layout_pages_def tag_ops_def)

lemma tag_index_layout:
  "0 < capacity cfg \<Longrightarrow> texts \<noteq> [] \<Longrightarrow>
   length (last (layout_pages cfg addr texts)) =
     (if length texts mod capacity cfg = 0 then capacity cfg else length texts mod capacity cfg)"
  by (simp add: layout_pages_def length_last_chunks tag_ops_def)

lemma open_slot_first:
  "0 < capacity cfg \<Longrightarrow> open_slot cfg \<lparr>tag_index = 0, page = 0, canvas = c\<rparr> =
     Inr \<lparr>tag_index = 0, page = 1, canvas = c\<rparr>"
  by (simp add: open_slot_def)

lemma place_tag_Inr:
  "text_from_instrument inst = Inr t \<Longrightarrow> address_of fs asrc = Inr addr \<Longrightarrow>
   place_tag cfg asrc fs inst s =
     Inr (s\<lparr>canvas := add_from_list (tag_frame cfg (tag_index s)) (tag_parts addr t) (canvas s),
            tag_index := tag_index s + 1\<rparr>)"
  by (simp add: place_tag_def)

lemma tag_step_layout_inv:
  assumes cap: "0 < capacity cfg" and c0: "cv_pages c0 = []"
    and inv: "layout_inv cfg addr c0 texts st"
    and pp: "print_please inst = Inr True" and tft: "text_from_instrument inst = Inr t"
    and adr: "address_of fs asrc = Inr addr"
  shows "\<exists>st'. tag_step cfg asrc fs st inst = Inr st' \<and> layout_inv cfg addr c0 (texts @ [t]) st'"
proof -
  let ?P = "layout_pages cfg addr texts"
  let ?op = "DrawFrame (tag_frame cfg (length texts mod capacity cfg)) (tag_parts addr t)"
  have step: "tag_step cfg asrc fs st inst = py_bind (open_slot cfg st) (place_tag cfg asrc fs inst)"
    using pp by (simp add: tag_step_def)
  note place = place_tag_Inr [OF tft adr]
  have snoc: "layout_pages cfg addr (texts @ [t]) =
      (if length texts mod capacity cfg = 0 then ?P @ [[?op]] else butlast ?P @ [last ?P @ [?op]])"
    using cap by (simp add: layout_pages_snoc Let_def)
  consider (first) "texts = []"
    | (full) "texts \<noteq> []" "length texts mod capacity cfg = 0"
    | (partial) "texts \<noteq> []" "length texts mod capacity cfg \<noteq> 0"
    by blast
  then show ?thesis
  proof cases
    case first
    with inv have "tag_index st = 0" "page st = 0" "canvas st = c0"
      by (simp_all add: layout_inv_def)
    with cap c0 first snoc show ?thesis
      by (simp add: step place open_slot_def layout_inv_def all_pages_def [of c0])
  next
    case full
    with cap inv have idx: "tag_index st = capacity cfg" and pg: "page st = length ?P"
      and ap: "all_pages (canvas st) = with_prefix (cv_code c0) ?P"
      and fn: "cv_filename (canvas st) = cv_filename c0" "cv_pagesize (canvas st) = cv_pagesize c0"
      by (simp_all add: layout_inv_def tag_index_layout)
    have "?P \<noteq> []" using cap full by simp
    then have "page st \<noteq> 0" using pg by simp
    with cap idx have "open_slot cfg st =
        Inr (st\<lparr>canvas := show_page (canvas st), page := page st + 1, tag_index := 0\<rparr>)"
      by (simp add: open_slot_def)
    with full cap snoc pg ap fn \<open>?P \<noteq> []\<close> show ?thesis
      by (simp add: step place layout_inv_def with_prefix_snoc)
  next
    case partial
    with cap inv have idx: "tag_index st = length texts mod capacity cfg" and pg: "page st = length ?P"
      and ap: "all_pages (canvas st) = with_prefix (cv_code c0) ?P"
      and fn: "cv_filename (canvas st) = cv_filename c0" "cv_pagesize (canvas st) = cv_pagesize c0"
      by (simp_all add: layout_inv_def tag_index_layout)
    have ne: "?P \<noteq> []" using cap partial by simp
    from cap idx partial have "open_slot cfg st = Inr st"
      by (simp add: open_slot_def)
    with partial cap snoc pg ap fn ne idx show ?thesis
      by (simp add: step place layout_inv_def with_prefix_extend_last tag_index_layout)
  qed
qed

lemma tag_step_skip: "print_please inst = Inr False \<Longrightarrow> tag_step cfg asrc fs st inst = Inr st"
  by (simp add: tag_step_def)

lemma tag_texts_Cons_skip:
  "print_please inst = Inr False \<Longrightarrow> tag_texts (inst # insts) = tag_texts insts"
  by simp

lemma tag_texts_Cons_print:
  "print_please inst = Inr True \<Longrightarrow> text_from_instrument inst = Inr t \<Longrightarrow>
   tag_texts (inst # insts) = t # tag_texts insts"
  by simp

lemma inst_ok_cases:
  assumes "inst_ok inst"
  obtains "print_please inst = Inr False"
    | t where "print_please inst = Inr True" "text_from_instrument inst = Inr t"
  using assms by (auto simp: inst_ok_def split: sum.splits)

lemma tag_loop_layout_inv:
  assumes cap: "0 < capacity cfg" and c0: "cv_pages c0 = []"
    and adr: "address_of fs asrc = Inr addr"
  shows "layout_inv cfg addr c0 texts st \<Longrightarrow> list_all inst_ok insts \<Longrightarrow>
    \<exists>st'. tag_loop cfg asrc fs st insts = Inr st' \<and>
          layout_inv cfg addr c0 (texts @ tag_texts insts) st'"
proof (induction insts arbitrary: texts st)
  case Nil
  then show ?case by simp
next
  case (Cons inst insts)
  from Cons.prems(2) have ok: "inst_ok inst" and oks: "list_all inst_ok insts" by simp_all
  from ok show ?case
  proof (cases rule: inst_ok_cases)
    case 1
    with Cons.IH [OF Cons.prems(1) oks] show ?thesis
      by (simp add: tag_step_skip)
  next
    case (2 t)
    from tag_step_layout_inv [OF cap c0 Cons.prems(1) 2 adr]
    obtain st1 where st1: "tag_step cfg asrc fs st inst = Inr st1"
      and inv1: "layout_inv cfg addr c0 (texts @ [t]) st1" by blast
    from Cons.IH [OF inv1 oks] 2 st1 show ?thesis
      by simp
  qed
qed

lemma init_state_layout_inv:
  "layout_inv cfg addr (canvas (init_state output)) [] (init_state output)"
  by (simp add: layout_inv_def init_state_def)

lemma render_tags_layout:
  assumes cap: "0 < capacity cfg" and oks: "list_all inst_ok insts"
    and adr: "address_of fs asrc = Inr addr"
  shows "render_tags cfg asrc fs output insts =
    Inr (Pdf output (with_prefix [SetFont ''Courier'' 16] (layout_pages cfg addr (tag_texts insts))))"
proof -
  let ?c0 = "canvas (init_state output)"
  let ?P = "layout_pages cfg addr (tag_texts insts)"
  have c0: "cv_pages ?c0 = []" and code0: "cv_code ?c0 = [SetFont ''Courier'' 16]"
    and fn0: "cv_filename ?c0 = output"
    by (simp_all add: init_state_def canvas_defs)
  from tag_loop_layout_inv [OF cap c0 adr init_state_layout_inv oks]
  obtain st where run: "tag_loop cfg asrc fs (init_state output) insts = Inr st"
    and inv: "layout_inv cfg addr ?c0 (tag_texts insts) st" by auto
  have "save (canvas st) = Pdf output (with_prefix [SetFont ''Courier'' 16] ?P)"
  proof (cases "tag_texts insts = []")
    case True
    with inv have "canvas st = ?c0" by (simp add: layout_inv_def)
    with True code0 fn0 c0 show ?thesis by (simp add: save_nonempty all_pages_def)
  next
    case False
    with inv code0 fn0 have ap: "all_pages (canvas st) = with_prefix [SetFont ''Courier'' 16] ?P"
      and fn: "cv_filename (canvas st) = output"
      by (simp_all add: layout_inv_def)
    have "?P \<noteq> []" and "last ?P \<noteq> []"
      using cap False by (simp_all add: layout_pages_def tag_ops_def last_chunks_nonempty)
    then have "cv_code (canvas st) \<noteq> []"
      using ap by (simp add: cv_code_last_all_pages last_with_prefix_nonempty)
    with ap fn show ?thesis by (simp add: save_nonempty)
  qed
  with run show ?thesis by (simp add: render_tags_def)
qed

lemma page_frames_map_DrawFrame:
  "page_frames (map (\<lambda>x. DrawFrame (f x) (g x)) xs) = map (\<lambda>x. (f x, g x)) xs"
  by (induction xs) simp_all

lemma layout_pages_chunks:
  "layout_pages cfg addr texts =
     map (map (\<lambda>x. DrawFrame (tag_frame cfg (fst x mod capacity cfg)) (tag_parts addr (snd x))))
         (chunks (capacity cfg) (zip [0..<length texts] texts))"
  by (simp add: layout_pages_def tag_ops_def chunks_map)

lemma length_layout_pages:
  "length (layout_pages cfg addr texts) = (length texts + capacity cfg - 1) div capacity cfg"
  by (simp add: layout_pages_def length_chunks)

lemma page_frames_layout_page:
  "q < length (layout_pages cfg addr texts) \<Longrightarrow>
   page_frames (layout_pages cfg addr texts ! q) =
     map (\<lambda>x. (tag_frame cfg (fst x mod capacity cfg), tag_parts addr (snd x)))
         (chunks (capacity cfg) (zip [0..<length texts] texts) ! q)"
  by (simp add: layout_pages_chunks page_frames_map_DrawFrame)

lemma page_frames_doc_page:
  "q < length pgs \<Longrightarrow> page_frames (with_prefix [SetFont n s] pgs ! q) = page_frames (pgs ! q)"
  by (simp add: nth_with_prefix)

lemma layout_page_has_frames:
  assumes q: "q < length (layout_pages cfg addr texts)"
  shows "page_frames (layout_pages cfg addr texts ! q) \<noteq> []"
proof -
  have "chunks (capacity cfg) (zip [0..<length texts] texts) ! q
          \<in> set (chunks (capacity cfg) (zip [0..<length texts] texts))"
    using q by (simp add: layout_pages_chunks)
  then have "chunks (capacity cfg) (zip [0..<length texts] texts) ! q \<noteq> []"
    by (rule chunks_not_Nil)
  then show ?thesis by (simp add: page_frames_layout_page [OF q])
qed

lemma sample_inventory_ok:
  "0 < capacity main_config" "list_all inst_ok sample_inventory"
  "address_of Map.empty (AddrLiteral return_address) = Inr return_address"
  by (simp add: capacity_def main_config_def) code_simp+

lemma sample_tag_texts: "length (tag_texts sample_inventory) = 10"
  by code_simp

lemma sample_run:
  "render_tags main_config (AddrLiteral return_address) Map.empty ''tuto1.pdf'' sample_inventory =
     Inr (Pdf ''tuto1.pdf'' sample_pages)"
  unfolding sample_pages_def by (rule render_tags_layout [OF sample_inventory_ok])

lemma slot_inv_init: "slot_inv cfg (init_state output)"
  by (simp add: slot_inv_def init_state_def canvas_defs)

lemma tag_step_Inr_printable:
  assumes "tag_step cfg asrc fs st inst = Inr st'" "print_please inst = Inr True"
  obtains st1 t addr where "0 < capacity cfg" "open_slot cfg st = Inr st1"
    "text_from_instrument inst = Inr t" "address_of fs asrc = Inr addr"
    "st' = st1\<lparr>canvas := add_from_list (tag_frame cfg (tag_index st1)) (tag_parts addr t) (canvas st1),
                tag_index := tag_index st1 + 1\<rparr>"
  using assms by (auto simp: tag_step_def place_tag_def open_slot_def split: if_splits)

lemma slot_inv_place:
  "open_inv cfg st \<Longrightarrow>
   slot_inv cfg (st\<lparr>canvas := add_from_list (tag_frame cfg (tag_index st)) ps (canvas st),
                   tag_index := tag_index st + 1\<rparr>)"
  by (simp add: open_inv_def slot_inv_def add_from_list_def)

lemma slot_inv_step:
  assumes inv: "slot_inv cfg st" and step: "tag_step cfg asrc fs st inst = Inr st'"
  shows "slot_inv cfg st'"
proof (cases "print_please inst = Inr True")
  case False
  with step have "st' = st"
    by (cases "print_please inst") (auto simp: tag_step_def)
  with inv show ?thesis by simp
next
  case True
  from step True obtain st1 t addr where cap: "0 < capacity cfg" and os: "open_slot cfg st = Inr st1"
    and st': "st' = st1\<lparr>canvas := add_from_list (tag_frame cfg (tag_index st1)) (tag_parts addr t) (canvas st1),
                tag_index := tag_index st1 + 1\<rparr>"
    by (rule tag_step_Inr_printable)
  have "open_inv cfg st1"
  proof (cases "tag_index st mod capacity cfg = 0")
    case z: True
    show ?thesis
    proof (cases "page st = 0")
      case True
      with z cap os have "st1 = st\<lparr>page := 1\<rparr>" by (simp add: open_slot_def)
      with inv True cap show ?thesis by (simp add: slot_inv_def open_inv_def)
    next
      case False
      with inv have "tag_index st \<noteq> 0" "tag_index st \<le> capacity cfg" by (simp_all add: slot_inv_def)
      with z cap have full: "tag_index st = capacity cfg"
        by (metis le_neq_implies_less mod_less neq0_conv)
      from False z cap os
      have "st1 = st\<lparr>canvas := show_page (canvas st), page := page st + 1, tag_index := 0\<rparr>"
        by (simp add: open_slot_def)
      with inv full False cap show ?thesis by (simp add: slot_inv_def open_inv_def show_page_def)
    qed
  next
    case nz: False
    with cap os have "st1 = st" by (simp add: open_slot_def split: if_splits)
    moreover from inv nz have "tag_index st < capacity cfg" "tag_index st \<noteq> 0"
      by (auto simp: slot_inv_def order.order_iff_strict)
    ultimately show ?thesis using inv by (simp add: slot_inv_def open_inv_def)
  qed
  with st' show ?thesis using slot_inv_place [of cfg st1 "tag_parts addr t"] by simp
qed

lemma tag_loop_reachable:
  "tag_reachable cfg asrc fs output st \<Longrightarrow> tag_loop cfg asrc fs st insts = Inr st' \<Longrightarrow>
   tag_reachable cfg asrc fs output st'"
proof (induction insts arbitrary: st)
  case (Cons inst insts)
  then obtain st1 where "tag_step cfg asrc fs st inst = Inr st1"
    and "tag_loop cfg asrc fs st1 insts = Inr st'" by auto
  with Cons show ?case by (blast intro: tag_reachable.step)
qed simp

lemma reachable_slot_inv: "tag_reachable cfg asrc fs output st \<Longrightarrow> slot_inv cfg st"
  by (induction rule: tag_reachable.induct) (auto intro: slot_inv_init slot_inv_step)

lemma slot_inv_page_cells:
  assumes "slot_inv cfg st" and "p \<in> set (all_pages (canvas st))"
  shows "\<exists>m \<le> capacity cfg. map fst (page_frames p) = map (tag_frame cfg) [0..<m]"
  using assms by (auto simp: slot_inv_def all_pages_def list_all_iff)

lemma save_pages_subset: "save c = Pdf out pgs \<Longrightarrow> set pgs \<subseteq> set (all_pages c)"
  by (auto simp: save_def show_page_def all_pages_def split: if_splits)

lemma render_tags_page_cells:
  assumes "render_tags cfg asrc fs output insts = Inr (Pdf out pgs)" and "p \<in> set pgs"
  shows "\<exists>m \<le> capacity cfg. map fst (page_frames p) = map (tag_frame cfg) [0..<m]"
proof -
  from assms(1) obtain st where run: "tag_loop cfg asrc fs (init_state output) insts = Inr st"
    and sv: "save (canvas st) = Pdf out pgs"
    by (auto simp: render_tags_def)
  from tag_loop_reachable [OF tag_reachable.start run] have "slot_inv cfg st"
    by (rule reachable_slot_inv)
  moreover from sv assms(2) have "p \<in> set (all_pages (canvas st))"
    using save_pages_subset by blast
  ultimately show ?thesis by (rule slot_inv_page_cells)
qed

lemma tag_frame_extent:
  assumes "i < capacity cfg"
  shows "frame_x (tag_frame cfg i) + frame_width (tag_frame cfg i) \<le> cols cfg * tag_width cfg
       \<and> frame_y (tag_frame cfg i) + frame_height (tag_frame cfg i) \<le> rows cfg * tag_height cfg"
proof -
  from assms have c: "0 < cols cfg" by (cases "cols cfg") (simp_all add: capacity_def)
  from assms have "i div cols cfg < rows cfg"
    by (simp add: capacity_def less_mult_imp_div_less)
  then have "Suc (i div cols cfg) * tag_height cfg \<le> rows cfg * tag_height cfg"
    by (intro mult_le_mono1) simp
  moreover have "Suc (i mod cols cfg) * tag_width cfg \<le> cols cfg * tag_width cfg"
    using c by (intro mult_le_mono1) (simp add: Suc_le_eq)
  ultimately show ?thesis by (simp add: tag_frame_def add.commute)
qed

lemma cells_disjoint:
  assumes "a < b"
  shows "a * w + w \<le> b * (w::nat)"
proof -
  from assms have "Suc a * w \<le> b * w" by (intro mult_le_mono1) simp
  then show ?thesis by (simp add: add.commute)
qed

lemma tag_frame_disjoint:
  assumes "i \<noteq> j" and "i < capacity cfg" and "j < capacity cfg"
  shows "frames_disjoint (tag_frame cfg i) (tag_frame cfg j)"
proof (cases "i mod cols cfg = j mod cols cfg")
  case True
  have "i div cols cfg \<noteq> j div cols cfg"
  proof
    assume "i div cols cfg = j div cols cfg"
    with True have "i = j" by (metis div_mult_mod_eq)
    with assms(1) show False ..
  qed
  then show ?thesis
    by (cases "i div cols cfg < j div cols cfg")
       (auto simp: frames_disjoint_def tag_frame_def cells_disjoint)
next
  case False
  then show ?thesis
    by (cases "i mod cols cfg < j mod cols cfg")
       (auto simp: frames_disjoint_def tag_frame_def cells_disjoint)
qed

lemma open_slot_succeeds: "0 < capacity cfg \<Longrightarrow> \<exists>st1. open_slot cfg st = Inr st1"
  by (simp add: open_slot_def)

lemma tag_loop_unprintable:
  "list_all (\<lambda>inst. print_please inst = Inr False) insts \<Longrightarrow> tag_loop cfg asrc fs st insts = Inr st"
  by (induction insts) (simp_all add: tag_step_skip)

lemma tag_loop_address_missing:
  assumes cap: "0 < capacity cfg" and fp: "fs p = None"
  shows "list_all inst_ok insts \<Longrightarrow> tag_texts insts \<noteq> [] \<Longrightarrow>
    tag_loop cfg (AddrFile p) fs st insts = Inl (FileNotFoundError p)"
proof (induction insts arbitrary: st)
  case (Cons inst insts)
  from Cons.prems(1) have ok: "inst_ok inst" and oks: "list_all inst_ok insts" by simp_all
  from ok show ?case
  proof (cases rule: inst_ok_cases)
    case 1
    with Cons.prems(2) have "tag_texts insts \<noteq> []" by simp
    with 1 Cons.IH [OF oks] show ?thesis by (simp add: tag_step_skip)
  next
    case (2 t)
    from open_slot_succeeds [OF cap] obtain st1 where "open_slot cfg st = Inr st1" ..
    with 2 fp show ?thesis
      by (simp add: tag_step_def place_tag_def address_def read_text_def)
  qed
qed simp

text \<open>C1. Refinement: on an inventory the loop processes without raising, with
  a non-empty grid and a readable address, the rendered document is the
  abstract layout: the tags of the printable records, in order, in cells
  \<open>0, 1, ...\<close> of consecutive pages of \<open>rows * cols\<close> cells, with the
  font operator of \<open>canvas.setFont\<close> at the start of the first page (which
  alone makes the single page of an inventory with no printable record).
  As everywhere in the model, reportlab's \<open>Paragraph\<close> is assumed to
  accept the markup of the tags.\<close>

theorem render_tags_refines:
  assumes "0 < capacity cfg" and "list_all inst_ok insts"
    and "address_of fs asrc = Inr addr"
  shows "render_tags cfg asrc fs output insts =
    Inr (Pdf output (with_prefix [SetFont ''Courier'' 16] (layout_pages cfg addr (tag_texts insts))))"
  using assms by (rule render_tags_layout)

theorem render_tags_refines_witness:
  "0 < capacity main_config \<and>
   list_all inst_ok [full_row ''Violin'' ''Yamaha'' '''' ''4/4'' ''Ola'' ''TRUE'', full_row ''Cello'' ''X'' ''7'' ''1/2'' ''Kari'' ''FALSE''] \<and>
   address_of Map.empty (AddrLiteral return_address) = Inr return_address \<and>
   render_tags main_config (AddrLiteral return_address) Map.empty ''tuto1.pdf''
     [full_row ''Violin'' ''Yamaha'' '''' ''4/4'' ''Ola'' ''TRUE'', full_row ''Cello'' ''X'' ''7'' ''1/2'' ''Kari'' ''FALSE''] =
   Inr (Pdf ''tuto1.pdf'' (with_prefix [SetFont ''Courier'' 16]
     (layout_pages main_config return_address (tag_texts [full_row ''Violin'' ''Yamaha'' '''' ''4/4'' ''Ola'' ''TRUE'', full_row ''Cello'' ''X'' ''7'' ''1/2'' ''Kari'' ''FALSE'']))))"
proof -
  have h: "0 < capacity main_config" "list_all inst_ok [full_row ''Violin'' ''Yamaha'' '''' ''4/4'' ''Ola'' ''TRUE'', full_row ''Cello'' ''X'' ''7'' ''1/2'' ''Kari'' ''FALSE'']"
    "address_of Map.empty (AddrLiteral return_address) = Inr return_address"
    by (simp_all add: capacity_def main_config_def inst_ok_def full_row_def model_defs text_from_instrument_def)
  show ?thesis using h render_tags_refines [OF h] by simp
qed
text \<open>C2. Page count: the document has one page per started group of
  \<open>rows * cols\<close> printable records, \<open>ceil(n / (rows * cols))\<close> pages holding
  tags, and a single page without tags when no record is printable.\<close>

theorem render_tags_page_count:
  assumes cap: "0 < capacity cfg" and oks: "list_all inst_ok insts"
    and adr: "address_of fs asrc = Inr addr"
    and run: "render_tags cfg asrc fs output insts = Inr (Pdf output' pgs)"
  shows "length (filter (\<lambda>p. page_frames p \<noteq> []) pgs) =
           (length (tag_texts insts) + capacity cfg - 1) div capacity cfg
       \<and> length pgs = max 1 ((length (tag_texts insts) + capacity cfg - 1) div capacity cfg)"
proof -
  let ?ts = "tag_texts insts"
  let ?P = "layout_pages cfg addr ?ts"
  have pgs: "pgs = with_prefix [SetFont ''Courier'' 16] ?P"
    using render_tags_layout [OF cap oks adr] run by simp
  show ?thesis
  proof (cases "?ts = []")
    case True
    then show ?thesis using cap pgs by simp
  next
    case False
    then have ne: "?P \<noteq> []" using cap by simp
    have "\<forall>p \<in> set pgs. page_frames p \<noteq> []"
      using cap ne by (auto simp: pgs in_set_conv_nth length_with_prefix page_frames_doc_page
          layout_page_has_frames)
    then have "filter (\<lambda>p. page_frames p \<noteq> []) pgs = pgs" by simp
    moreover have "1 \<le> length ?P" using ne by (simp add: Suc_le_eq)
    ultimately show ?thesis
      using ne by (simp add: pgs length_with_prefix length_layout_pages max_def)
  qed
qed

text \<open>C3. Placement: the \<open>k\<close>-th printable record (counting from 0 and
  skipping the others) is drawn on page \<open>k div (rows * cols)\<close>, as frame
  number \<open>k mod (rows * cols)\<close> of that page, in column
  \<open>(k mod (rows * cols)) mod cols\<close> and row \<open>(k mod (rows * cols)) div cols\<close>,
  with the address and its own tag text.\<close>

theorem render_tags_slot:
  assumes cap: "0 < capacity cfg" and oks: "list_all inst_ok insts"
    and adr: "address_of fs asrc = Inr addr"
    and run: "render_tags cfg asrc fs output insts = Inr (Pdf output' pgs)"
    and k: "k < length (tag_texts insts)"
  shows "k div capacity cfg < length pgs
       \<and> k mod capacity cfg < length (page_frames (pgs ! (k div capacity cfg)))
       \<and> page_frames (pgs ! (k div capacity cfg)) ! (k mod capacity cfg) =
           (\<lparr>frame_x = (k mod capacity cfg mod cols cfg) * tag_width cfg,
             frame_y = (k mod capacity cfg div cols cfg) * tag_height cfg,
             frame_width = tag_width cfg, frame_height = tag_height cfg, show_boundary = True\<rparr>,
            tag_parts addr (tag_texts insts ! k))"
proof -
  let ?ts = "tag_texts insts"
  let ?P = "layout_pages cfg addr ?ts"
  let ?zs = "zip [0..<length ?ts] ?ts"
  have pgs: "pgs = with_prefix [SetFont ''Courier'' 16] ?P"
    using render_tags_layout [OF cap oks adr] run by simp
  have kz: "k < length ?zs" using k by simp
  from chunks_index_bounds [OF cap kz]
  have q: "k div capacity cfg < length ?P"
    and j: "k mod capacity cfg < length (chunks (capacity cfg) ?zs ! (k div capacity cfg))"
    by (simp_all add: layout_pages_chunks)
  have ne: "?P \<noteq> []" using q by auto
  have page: "page_frames (pgs ! (k div capacity cfg)) =
      map (\<lambda>x. (tag_frame cfg (fst x mod capacity cfg), tag_parts addr (snd x)))
          (chunks (capacity cfg) ?zs ! (k div capacity cfg))"
    using q by (simp add: pgs page_frames_doc_page page_frames_layout_page)
  have "chunks (capacity cfg) ?zs ! (k div capacity cfg) ! (k mod capacity cfg) = (k, ?ts ! k)"
    using chunks_nth_nth [OF cap kz] k by simp
  with page j q ne show ?thesis
    by (simp add: pgs length_with_prefix tag_frame_def)
qed


theorem render_tags_page_count_witness:
  "render_tags main_config (AddrLiteral return_address) Map.empty ''tuto1.pdf'' sample_inventory =
     Inr (Pdf ''tuto1.pdf'' sample_pages)
   \<and> length (filter (\<lambda>p. page_frames p \<noteq> []) sample_pages) = 2 \<and> length sample_pages = 2"
  using render_tags_page_count [OF sample_inventory_ok sample_run] sample_run sample_tag_texts
  by (simp add: capacity_def main_config_def)

theorem render_tags_slot_witness:
  "render_tags main_config (AddrLiteral return_address) Map.empty ''tuto1.pdf'' sample_inventory =
     Inr (Pdf ''tuto1.pdf'' sample_pages)
   \<and> 9 < length (tag_texts sample_inventory)
   \<and> page_frames (sample_pages ! 1) ! 0 =
       (\<lparr>frame_x = 0, frame_y = 0, frame_width = 69, frame_height = 98, show_boundary = True\<rparr>,
        tag_parts return_address (tag_texts sample_inventory ! 9))"
proof -
  have k: "9 < length (tag_texts sample_inventory)" using sample_tag_texts by simp
  from render_tags_slot [OF sample_inventory_ok sample_run k] sample_run k show ?thesis
    by (simp add: capacity_def main_config_def)
qed

text \<open>C4. Records whose \<open>PRINT\<close> is not exactly \<open>TRUE\<close> consume no slot:
  when every record has the column, the loop does exactly what it does on
  the printable records alone.\<close>

theorem tag_loop_skips_unprintable:
  "list_all (\<lambda>inst. row inst ''PRINT'' \<noteq> None) insts \<Longrightarrow>
   tag_loop cfg asrc fs st insts =
   tag_loop cfg asrc fs st (filter (\<lambda>inst. print_please inst = Inr True) insts)"
proof (induction insts arbitrary: st)
  case Nil
  then show ?case by simp
next
  case (Cons inst insts)
  then obtain v where v: "row inst ''PRINT'' = Some v" by auto
  show ?case
  proof (cases "v = PStr ''TRUE''")
    case True
    with v Cons show ?thesis by (simp add: print_please_cases)
  next
    case False
    with v have "print_please inst = Inr False" by (simp add: print_please_cases)
    with Cons show ?thesis by (simp add: tag_step_skip)
  qed
qed

theorem tag_loop_skips_unprintable_witness:
  "list_all (\<lambda>inst. row inst ''PRINT'' \<noteq> None) sample_inventory
   \<and> tag_loop main_config (AddrLiteral return_address) Map.empty (init_state ''tuto1.pdf'') sample_inventory =
     tag_loop main_config (AddrLiteral return_address) Map.empty (init_state ''tuto1.pdf'')
       (filter (\<lambda>inst. print_please inst = Inr True) sample_inventory)"
proof -
  have h: "list_all (\<lambda>inst. row inst ''PRINT'' \<noteq> None) sample_inventory" by code_simp
  show ?thesis using h tag_loop_skips_unprintable [OF h] by simp
qed

text \<open>C8. No line feed reaches the paragraph markup of a tag: both the
  address and the tag text have every newline replaced.\<close>

theorem tag_parts_no_newline:
  "Paragraph m sty \<in> set (tag_parts addr inst_text) \<Longrightarrow> NL \<notin> set m"
  by (auto simp: tag_parts_def replace_new_lines_chars split: if_splits)

theorem tag_parts_no_newline_witness:
  "Paragraph (replace_new_lines return_address) address_style \<in> set (tag_parts return_address ''a'')
   \<and> NL \<notin> set (replace_new_lines return_address)"
proof -
  have h: "Paragraph (replace_new_lines return_address) address_style \<in> set (tag_parts return_address ''a'')"
    by (simp add: tag_parts_def)
  show ?thesis using h tag_parts_no_newline [OF h] by simp
qed


text \<open>C10. Invariant of the loop, by rule induction over its reachable
  states: the slot counter never exceeds \<open>rows * cols\<close> and is zero
  exactly before the first tag; one page is closed per page break and every
  closed page is full, its frames the cells \<open>0 .. rows * cols - 1\<close> in
  order; the open page holds the frames of cells \<open>0 .. tag_index - 1\<close>.\<close>

theorem tag_reachable_slot_inv:
  "tag_reachable cfg asrc fs output st \<Longrightarrow> slot_inv cfg st"
proof (induction rule: tag_reachable.induct)
  case start
  show ?case by (rule slot_inv_init)
next
  case (step cfg asrc fs out st inst st')
  from step.IH step.hyps(2) show ?case by (rule slot_inv_step)
qed

theorem tag_reachable_slot_inv_witness:
  "tag_reachable main_config (AddrLiteral return_address) Map.empty ''tuto1.pdf''
     (projr (tag_step main_config (AddrLiteral return_address) Map.empty (init_state ''tuto1.pdf'')
        (hd sample_inventory)))
   \<and> slot_inv main_config
     (projr (tag_step main_config (AddrLiteral return_address) Map.empty (init_state ''tuto1.pdf'')
        (hd sample_inventory)))"
proof -
  let ?st = "projr (tag_step main_config (AddrLiteral return_address) Map.empty (init_state ''tuto1.pdf'')
        (hd sample_inventory))"
  have s: "tag_step main_config (AddrLiteral return_address) Map.empty (init_state ''tuto1.pdf'')
        (hd sample_inventory) = Inr ?st"
    by code_simp
  have r: "tag_reachable main_config (AddrLiteral return_address) Map.empty ''tuto1.pdf'' ?st"
    by (rule tag_reachable.step [OF tag_reachable.start s])
  show ?thesis using r tag_reachable_slot_inv [OF r] by simp
qed

text \<open>C11. Bounds: with the program's grid of 3 x 3 tags of 69 x 98 mm,
  every frame drawn on every page of the document lies within the A4 page
  (the grid covers 207 x 294 mm of 210 x 297 mm).\<close>

theorem render_tags_frames_on_a4:
  assumes run: "render_tags main_config asrc fs output insts = Inr (Pdf out pgs)"
    and p: "p \<in> set pgs" and fr: "fr \<in> set (page_frames p)"
  shows "frame_within A4 (fst fr)"
proof -
  from render_tags_page_cells [OF run p] obtain m where m: "m \<le> capacity main_config"
    and cells: "map fst (page_frames p) = map (tag_frame main_config) [0..<m]" by blast
  from fr have "fst fr \<in> set (map fst (page_frames p))" by simp
  with cells obtain i where i: "i < m" and f: "fst fr = tag_frame main_config i" by auto
  from i m have "i < capacity main_config" by simp
  from tag_frame_extent [OF this] f show ?thesis
    by (simp add: frame_within_def A4_def main_config_def)
qed

theorem render_tags_frames_on_a4_witness:
  "render_tags main_config (AddrLiteral return_address) Map.empty ''tuto1.pdf'' sample_inventory =
     Inr (Pdf ''tuto1.pdf'' sample_pages)
   \<and> hd sample_pages \<in> set sample_pages
   \<and> hd (page_frames (hd sample_pages)) \<in> set (page_frames (hd sample_pages))
   \<and> frame_within A4 (fst (hd (page_frames (hd sample_pages))))"
proof -
  have p: "hd sample_pages \<in> set sample_pages"
    and fr: "hd (page_frames (hd sample_pages)) \<in> set (page_frames (hd sample_pages))"
    by code_simp+
  show ?thesis using sample_run p fr render_tags_frames_on_a4 [OF sample_run p fr] by simp
qed

text \<open>C12. Separation: two different frames of one page never overlap, for
  any grid: the tags of a page are drawn in distinct cells.\<close>

theorem render_tags_frames_disjoint:
  assumes run: "render_tags cfg asrc fs output insts = Inr (Pdf out pgs)"
    and p: "p \<in> set pgs" and ij: "i < j" and j: "j < length (page_frames p)"
  shows "frames_disjoint (fst (page_frames p ! i)) (fst (page_frames p ! j))"
proof -
  from render_tags_page_cells [OF run p] obtain m where m: "m \<le> capacity cfg"
    and cells: "map fst (page_frames p) = map (tag_frame cfg) [0..<m]" by blast
  from cells have len: "length (page_frames p) = m" by (metis length_map length_upt minus_nat.diff_0)
  have "fst (page_frames p ! k) = tag_frame cfg k" if "k < m" for k
    using arg_cong [OF cells, of "\<lambda>xs. xs ! k"] that len by simp
  with ij j len m show ?thesis
    by (simp add: tag_frame_disjoint)
qed

theorem render_tags_frames_disjoint_witness:
  "render_tags main_config (AddrLiteral return_address) Map.empty ''tuto1.pdf'' sample_inventory =
     Inr (Pdf ''tuto1.pdf'' sample_pages)
   \<and> hd sample_pages \<in> set sample_pages \<and> (0::nat) < 1 \<and> 1 < length (page_frames (hd sample_pages))
   \<and> frames_disjoint (fst (page_frames (hd sample_pages) ! 0)) (fst (page_frames (hd sample_pages) ! 1))"
proof -
  have p: "hd sample_pages \<in> set sample_pages"
    and j: "1 < length (page_frames (hd sample_pages))"
    by code_simp+
  have ij: "(0::nat) < 1" by simp
  show ?thesis using sample_run p j render_tags_frames_disjoint [OF sample_run p ij j] by simp
qed


text \<open>C13. Error path of \<^verbatim>\<open>make_tags.py\<close>: when the address file does not
  exist and some record is to be printed, the run raises
  \<open>FileNotFoundError\<close> for it (at the first printable record) and no
  document is saved.\<close>

theorem render_tags_missing_address:
  assumes "0 < capacity cfg" and "list_all inst_ok insts" and "tag_texts insts \<noteq> []"
    and "fs p = None"
  shows "render_tags cfg (AddrFile p) fs output insts = Inl (FileNotFoundError p)"
  using tag_loop_address_missing [where fs = fs and p = p, OF assms(1) assms(4) assms(2) assms(3)]
  by (simp add: render_tags_def)

theorem render_tags_missing_address_witness:
  "0 < capacity main_config \<and> list_all inst_ok sample_inventory \<and> tag_texts sample_inventory \<noteq> []
   \<and> (Map.empty :: files) ''./address.txt'' = None
   \<and> render_tags main_config (AddrFile ''./address.txt'') Map.empty ''./inventory.pdf'' sample_inventory =
       Inl (FileNotFoundError ''./address.txt'')"
proof -
  have h: "0 < capacity main_config" "list_all inst_ok sample_inventory"
    "tag_texts sample_inventory \<noteq> []" "(Map.empty :: files) ''./address.txt'' = None"
    using sample_inventory_ok sample_tag_texts by auto
  show ?thesis using h render_tags_missing_address [OF h] by simp
qed

text \<open>C14. With no record to print, the run succeeds whatever the grid and
  the address source (a missing address file is never opened) and the
  document is one page that holds only the operator of \<open>setFont\<close>: not a
  document without pages.\<close>

theorem render_tags_nothing_printable:
  assumes "list_all (\<lambda>inst. print_please inst = Inr False) insts"
  shows "render_tags cfg asrc fs output insts = Inr (Pdf output [[SetFont ''Courier'' 16]])"
  using tag_loop_unprintable [OF assms]
  by (simp add: render_tags_def init_state_def canvas_defs)

theorem render_tags_nothing_printable_witness:
  "list_all (\<lambda>inst. print_please inst = Inr False)
     [full_row ''Cello'' ''Stentor'' ''77'' ''1/2'' ''Ola'' ''true'']
   \<and> render_tags main_config (AddrFile ''./address.txt'') Map.empty ''./inventory.pdf''
       [full_row ''Cello'' ''Stentor'' ''77'' ''1/2'' ''Ola'' ''true''] =
     Inr (Pdf ''./inventory.pdf'' [[SetFont ''Courier'' 16]])"
proof -
  have h: "list_all (\<lambda>inst. print_please inst = Inr False)
     [full_row ''Cello'' ''Stentor'' ''77'' ''1/2'' ''Ola'' ''true'']"
    by (simp add: full_row_def accessor_defs)
  show ?thesis using h render_tags_nothing_printable [OF h] by simp
qed

lemma open_slot_drawn: "open_slot cfg st = Inr st1 \<Longrightarrow> drawn (canvas st1) = drawn (canvas st)"
  by (auto simp: open_slot_def split: if_splits)

lemma length_concat_page_frames:
  "list_all (\<lambda>p. length (page_frames p) = n) ps \<Longrightarrow> length (concat (map page_frames ps)) = length ps * n"
  by (induction ps) simp_all

lemma slot_inv_drawn:
  assumes "slot_inv cfg st"
  shows "length (drawn (canvas st)) = (page st - 1) * capacity cfg + tag_index st"
proof -
  from assms have "list_all (\<lambda>p. length (page_frames p) = capacity cfg) (cv_pages (canvas st))"
    unfolding slot_inv_def list_all_iff by (metis length_map length_upt minus_nat.diff_0)
  then have "length (concat (map page_frames (cv_pages (canvas st)))) = (page st - 1) * capacity cfg"
    using assms by (simp add: length_concat_page_frames slot_inv_def)
  moreover have "length (page_frames (cv_code (canvas st))) = tag_index st"
    using assms unfolding slot_inv_def by (metis length_map length_upt minus_nat.diff_0)
  ultimately show ?thesis by (simp add: drawn_def all_pages_def)
qed

lemma open_slot_slot:
  assumes inv: "slot_inv cfg st" and cap: "0 < capacity cfg" and os: "open_slot cfg st = Inr st1"
  shows "tag_index st1 = length (drawn (canvas st)) mod capacity cfg"
proof -
  have n: "length (drawn (canvas st)) = (page st - 1) * capacity cfg + tag_index st"
    using inv by (rule slot_inv_drawn)
  have le: "tag_index st \<le> capacity cfg" and z: "page st = 0 \<longleftrightarrow> tag_index st = 0"
    using inv by (simp_all add: slot_inv_def)
  show ?thesis
  proof (cases "tag_index st mod capacity cfg = 0")
    case True
    show ?thesis
    proof (cases "page st = 0")
      case True
      with z os n cap show ?thesis by (auto simp: open_slot_def)
    next
      case False
      with z have "tag_index st \<noteq> 0" by simp
      with le \<open>tag_index st mod capacity cfg = 0\<close> have "tag_index st = capacity cfg"
        by (metis le_neq_implies_less mod_less)
      with False os n cap show ?thesis by (auto simp: open_slot_def)
    qed
  next
    case False
    with le have "tag_index st < capacity cfg" by (metis le_neq_implies_less mod_self)
    with False os n cap show ?thesis by (auto simp: open_slot_def)
  qed
qed

text \<open>C25. Progress of the loop: from every reachable state, a record
  flagged for printing whose text can be formatted is drawn by the next
  iteration, with a readable address and a non-empty grid: the step
  succeeds into a reachable state and appends exactly one frame to the
  frames drawn so far, the record's tag in cell \<open>n mod (rows * cols)\<close>
  when \<open>n\<close> frames were drawn before it. (Success assumes, as the whole
  model does, that reportlab's \<open>Paragraph\<close> accepts the markup.)\<close>

theorem tag_step_progress:
  assumes reach: "tag_reachable cfg asrc fs output st" and cap: "0 < capacity cfg"
    and adr: "address_of fs asrc = Inr addr"
    and pp: "print_please inst = Inr True" and tx: "text_from_instrument inst = Inr t"
  shows "\<exists>st'. tag_step cfg asrc fs st inst = Inr st' \<and> tag_reachable cfg asrc fs output st'
           \<and> drawn (canvas st') = drawn (canvas st) @
               [(tag_frame cfg (length (drawn (canvas st)) mod capacity cfg), tag_parts addr t)]"
proof -
  obtain st1 where os: "open_slot cfg st = Inr st1"
    using open_slot_succeeds [OF cap] by blast
  have slot: "tag_index st1 = length (drawn (canvas st)) mod capacity cfg"
    using reachable_slot_inv [OF reach] cap os by (rule open_slot_slot)
  let ?st' = "st1\<lparr>canvas := add_from_list (tag_frame cfg (tag_index st1)) (tag_parts addr t) (canvas st1),
                 tag_index := tag_index st1 + 1\<rparr>"
  have step: "tag_step cfg asrc fs st inst = Inr ?st'"
    using os pp place_tag_Inr [OF tx adr] by (simp add: tag_step_def)
  moreover have "tag_reachable cfg asrc fs output ?st'"
    using reach step by (rule tag_reachable.step)
  moreover have "drawn (canvas ?st') = drawn (canvas st) @
      [(tag_frame cfg (length (drawn (canvas st)) mod capacity cfg), tag_parts addr t)]"
    using open_slot_drawn [OF os] slot by simp
  ultimately show ?thesis by blast
qed

theorem tag_step_progress_witness:
  "tag_reachable main_config (AddrLiteral return_address) Map.empty ''tuto1.pdf''
     (projr (tag_step main_config (AddrLiteral return_address) Map.empty (init_state ''tuto1.pdf'')
        (hd sample_inventory)))
   \<and> 0 < capacity main_config
   \<and> address_of Map.empty (AddrLiteral return_address) = Inr return_address
   \<and> print_please (sample_inventory ! 2) = Inr True
   \<and> text_from_instrument (sample_inventory ! 2) = Inr (tag_template ''Violin'' ''Yamaha V5'' ''SN-1'' ''4/4'' ''Kari'')
   \<and> (\<exists>st'. tag_step main_config (AddrLiteral return_address) Map.empty
              (projr (tag_step main_config (AddrLiteral return_address) Map.empty (init_state ''tuto1.pdf'')
                 (hd sample_inventory))) (sample_inventory ! 2) = Inr st'
         \<and> tag_reachable main_config (AddrLiteral return_address) Map.empty ''tuto1.pdf'' st'
         \<and> drawn (canvas st') =
             drawn (canvas (projr (tag_step main_config (AddrLiteral return_address) Map.empty
                (init_state ''tuto1.pdf'') (hd sample_inventory))))
             @ [(tag_frame main_config
                  (length (drawn (canvas (projr (tag_step main_config (AddrLiteral return_address) Map.empty
                     (init_state ''tuto1.pdf'') (hd sample_inventory))))) mod capacity main_config),
                 tag_parts return_address (tag_template ''Violin'' ''Yamaha V5'' ''SN-1'' ''4/4'' ''Kari''))])"
proof -
  let ?st = "projr (tag_step main_config (AddrLiteral return_address) Map.empty (init_state ''tuto1.pdf'')
        (hd sample_inventory))"
  have s: "tag_step main_config (AddrLiteral return_address) Map.empty (init_state ''tuto1.pdf'')
        (hd sample_inventory) = Inr ?st"
    by code_simp
  have r: "tag_reachable main_config (AddrLiteral return_address) Map.empty ''tuto1.pdf'' ?st"
    by (rule tag_reachable.step [OF tag_reachable.start s])
  have c: "0 < capacity main_config" by (simp add: capacity_def main_config_def)
  have a: "address_of Map.empty (AddrLiteral return_address) = Inr return_address" by simp
  have p: "print_please (sample_inventory ! 2) = Inr True" by code_simp
  have t: "text_from_instrument (sample_inventory ! 2) =
      Inr (tag_template ''Violin'' ''Yamaha V5'' ''SN-1'' ''4/4'' ''Kari'')" by code_simp
  show ?thesis using r c a p t tag_step_progress [OF r c a p t] by blast
qed

end
