(* ===== verification/Loader.thy ===== *)
theory Loader
  imports Instrument Formatter
begin

text \<open>The record loader \<open>instruments_from_csv\<close> (\<^verbatim>\<open>src/make_tags.py\<close>
  lines 41--47, \<^verbatim>\<open>src/main.py\<close> lines 39--45): the file is opened in text
  mode, tokenised by \<open>csv.reader\<close> with \<open>delimiter=';'\<close> and
  \<open>quotechar='"'\<close>, and turned into dictionaries by \<open>csv.DictReader\<close>.
  The tokeniser is the character state machine of CPython's \<open>_csv\<close> module
  for this dialect (double quotes, no escape character, not strict), fed one
  line at a time and an end-of-line event after each line; the file iterator
  splits the newline-translated text after every line feed.\<close>

section \<open>csv.reader\<close>

datatype csv_state =
    StartRecord | StartField | InField | InQuotedField | QuoteInQuotedField | EatCrnl

datatype csv_input = Chr char | EOL

record csv_parser =
  pstate :: csv_state
  pfields :: "string list"
  pfield :: string

definition csv_delimiter :: char where "csv_delimiter = CHR '';''"

definition csv_quotechar :: char where "csv_quotechar = CHR 0x22"

definition parser_reset :: csv_parser where
  "parser_reset = \<lparr>pstate = StartRecord, pfields = [], pfield = []\<rparr>"

definition save_field :: "csv_parser \<Rightarrow> csv_parser" where
  "save_field p = p\<lparr>pfields := pfields p @ [pfield p], pfield := []\<rparr>"

definition add_char :: "char \<Rightarrow> csv_parser \<Rightarrow> csv_parser" where
  "add_char c p = p\<lparr>pfield := pfield p @ [c]\<rparr>"

definition is_line_end :: "csv_input \<Rightarrow> bool" where
  "is_line_end x \<longleftrightarrow> x = Chr NL \<or> x = Chr CR \<or> x = EOL"

definition after_line_end :: "csv_input \<Rightarrow> csv_state" where
  "after_line_end x = (if x = EOL then StartRecord else EatCrnl)"

text \<open>\<open>START_FIELD\<close>; \<open>START_RECORD\<close> falls through to it on an ordinary
  character.\<close>

definition start_field :: "csv_parser \<Rightarrow> csv_input \<Rightarrow> csv_parser" where
  "start_field p x =
     (if is_line_end x then (save_field p)\<lparr>pstate := after_line_end x\<rparr>
      else if x = Chr csv_quotechar then p\<lparr>pstate := InQuotedField\<rparr>
      else if x = Chr csv_delimiter then save_field p
      else (case x of Chr c \<Rightarrow> (add_char c p)\<lparr>pstate := InField\<rparr> | EOL \<Rightarrow> p))"

definition parse_process_char :: "csv_parser \<Rightarrow> csv_input \<Rightarrow> csv_parser py_result" where
  "parse_process_char p x =
     (case pstate p of
        StartRecord \<Rightarrow>
          (if x = EOL then Inr p
           else if x = Chr NL \<or> x = Chr CR then Inr (p\<lparr>pstate := EatCrnl\<rparr>)
           else Inr (start_field (p\<lparr>pstate := StartField\<rparr>) x))
      | StartField \<Rightarrow> Inr (start_field p x)
      | InField \<Rightarrow>
          (if is_line_end x then Inr ((save_field p)\<lparr>pstate := after_line_end x\<rparr>)
           else if x = Chr csv_delimiter then Inr ((save_field p)\<lparr>pstate := StartField\<rparr>)
           else (case x of Chr c \<Rightarrow> Inr (add_char c p) | EOL \<Rightarrow> Inr p))
      | InQuotedField \<Rightarrow>
          (if x = EOL then Inr p
           else if x = Chr csv_quotechar then Inr (p\<lparr>pstate := QuoteInQuotedField\<rparr>)
           else (case x of Chr c \<Rightarrow> Inr (add_char c p) | EOL \<Rightarrow> Inr p))
      | QuoteInQuotedField \<Rightarrow>
          (if x = Chr csv_quotechar then Inr ((add_char csv_quotechar p)\<lparr>pstate := InQuotedField\<rparr>)
           else if x = Chr csv_delimiter then Inr ((save_field p)\<lparr>pstate := StartField\<rparr>)
           else if is_line_end x then Inr ((save_field p)\<lparr>pstate := after_line_end x\<rparr>)
           else (case x of Chr c \<Rightarrow> Inr ((add_char c p)\<lparr>pstate := InField\<rparr>) | EOL \<Rightarrow> Inr p))
      | EatCrnl \<Rightarrow>
          (if x = Chr NL \<or> x = Chr CR then Inr p
           else if x = EOL then Inr (p\<lparr>pstate := StartRecord\<rparr>)
           else Inl (CsvError ''new-line character seen in unquoted field'')))"

fun parse_line :: "csv_parser \<Rightarrow> csv_input list \<Rightarrow> csv_parser py_result" where
  "parse_line p [] = Inr p"
| "parse_line p (x # xs) = py_bind (parse_process_char p x) (\<lambda>p'. parse_line p' xs)"

text \<open>The text-file iterator: lines end after each line feed.\<close>

fun split_lines :: "string \<Rightarrow> string \<Rightarrow> string list" where
  "split_lines cur [] = (if cur = [] then [] else [cur])"
| "split_lines cur (c # cs) =
     (if c = NL then (cur @ [NL]) # split_lines [] cs else split_lines (cur @ [c]) cs)"

text \<open>\<open>Reader_iternext\<close> over all records: a record ends when a line leaves
  the parser in \<open>START_RECORD\<close>; at the end of the input an open quoted or
  non-empty field closes the last record.\<close>

fun reader_records :: "csv_parser \<Rightarrow> string list \<Rightarrow> string list list py_result" where
  "reader_records p [] =
     (if pfield p \<noteq> [] \<or> pstate p = InQuotedField then Inr [pfields (save_field p)] else Inr [])"
| "reader_records p (l # ls) =
     py_bind (parse_line p (map Chr l @ [EOL])) (\<lambda>p'.
       if pstate p' = StartRecord
       then py_bind (reader_records parser_reset ls) (\<lambda>rows. Inr (pfields p' # rows))
       else reader_records p' ls)"

definition csv_reader :: "string \<Rightarrow> string list list py_result" where
  "csv_reader text = reader_records parser_reset (split_lines [] text)"

section \<open>Writing plain rows\<close>

text \<open>A field without separators, quotes or line breaks, and the line
  \<open>';'.join(fields) + '\n'\<close> that holds a row of such fields.\<close>

definition plain_field :: "string \<Rightarrow> bool" where
  "plain_field f \<longleftrightarrow> NL \<notin> set f \<and> CR \<notin> set f \<and> csv_delimiter \<notin> set f \<and> csv_quotechar \<notin> set f"

fun join_fields :: "string list \<Rightarrow> string" where
  "join_fields [] = []"
| "join_fields [f] = f"
| "join_fields (f # g # fs) = f @ [csv_delimiter] @ join_fields (g # fs)"

definition csv_text :: "string list list \<Rightarrow> string" where
  "csv_text rows = concat (map (\<lambda>r. join_fields r @ [NL]) rows)"

section \<open>csv.DictReader\<close>

text \<open>One row: \<open>dict(zip(fieldnames, row))\<close>, later duplicates winning;
  the columns a short row lacks get \<open>restval = None\<close>. The surplus fields of
  a long row go to the key \<open>restkey = None\<close>, which is not a column name and
  which no accessor reads; the model leaves that entry out.\<close>

definition dict_reader_row :: "string list \<Rightarrow> string list \<Rightarrow> row_dict" where
  "dict_reader_row fieldnames r =
     map_of (rev (zip fieldnames (map PStr r)))
       ++ map_of (map (\<lambda>k. (k, PNone)) (drop (length r) fieldnames))"

text \<open>The first record is the header; empty records (blank lines) are
  skipped.\<close>

fun dict_reader :: "string list list \<Rightarrow> row_dict list" where
  "dict_reader [] = []"
| "dict_reader (fieldnames # rows) = map (dict_reader_row fieldnames) (filter (\<lambda>r. r \<noteq> []) rows)"

definition instruments_from_csv :: "files \<Rightarrow> path \<Rightarrow> instrument list py_result" where
  "instruments_from_csv fs csv_path =
     py_bind (read_text fs csv_path) (\<lambda>text.
     py_bind (csv_reader text) (\<lambda>rows.
     Inr (map (\<lambda>r. \<lparr>row = r\<rparr>) (dict_reader rows))))"

section \<open>Lemmas\<close>

lemma csv_chars_distinct [simp]:
  "csv_delimiter \<noteq> NL" "csv_delimiter \<noteq> CR" "csv_quotechar \<noteq> NL" "csv_quotechar \<noteq> CR"
  "NL \<noteq> csv_delimiter" "CR \<noteq> csv_delimiter" "NL \<noteq> csv_quotechar" "CR \<noteq> csv_quotechar"
  "csv_delimiter \<noteq> csv_quotechar" "csv_quotechar \<noteq> csv_delimiter"
  by (simp_all add: csv_delimiter_def csv_quotechar_def)

lemma parse_line_append:
  "parse_line p (xs @ ys) = py_bind (parse_line p xs) (\<lambda>p'. parse_line p' ys)"
  by (induction p xs rule: parse_line.induct) (simp_all add: py_bind_def split: sum.split)

lemma parse_in_field_plain:
  "plain_field f \<Longrightarrow> pstate p = InField \<Longrightarrow>
   parse_line p (map Chr f) = Inr (p\<lparr>pfield := pfield p @ f\<rparr>)"
proof (induction f arbitrary: p)
  case (Cons c cs)
  then have "plain_field cs" and c: "c \<noteq> NL" "c \<noteq> CR" "c \<noteq> csv_delimiter" "c \<noteq> csv_quotechar"
    by (auto simp: plain_field_def)
  have "parse_process_char p (Chr c) = Inr (add_char c p)"
    using Cons.prems(2) c by (simp add: parse_process_char_def is_line_end_def)
  with Cons.IH [OF \<open>plain_field cs\<close>, of "add_char c p"] Cons.prems(2) show ?case
    by (simp add: add_char_def)
qed simp

lemma parse_field_plain:
  assumes "plain_field f" and "pstate p = StartField" and "pfield p = []"
    and "x = csv_delimiter \<or> x = NL"
  shows "parse_line p (map Chr (f @ [x])) =
    Inr \<lparr>pstate = (if x = NL then EatCrnl else StartField), pfields = pfields p @ [f], pfield = []\<rparr>"
proof (cases f)
  case Nil
  with assms show ?thesis
    by (cases p) (auto simp: parse_process_char_def start_field_def is_line_end_def after_line_end_def save_field_def)
next
  case (Cons c cs)
  from assms(1) Cons have "plain_field cs" and c: "c \<noteq> NL" "c \<noteq> CR" "c \<noteq> csv_delimiter" "c \<noteq> csv_quotechar"
    by (auto simp: plain_field_def)
  let ?p1 = "(add_char c p)\<lparr>pstate := InField\<rparr>"
  have "parse_process_char p (Chr c) = Inr ?p1"
    using assms(2) c by (simp add: parse_process_char_def start_field_def is_line_end_def)
  moreover have "parse_line ?p1 (map Chr cs) = Inr (?p1\<lparr>pfield := pfield ?p1 @ cs\<rparr>)"
    using parse_in_field_plain [OF \<open>plain_field cs\<close>] by simp
  moreover have "parse_process_char (?p1\<lparr>pfield := pfield ?p1 @ cs\<rparr>) (Chr x) =
      Inr ((save_field (?p1\<lparr>pfield := pfield ?p1 @ cs\<rparr>))\<lparr>pstate := (if x = NL then EatCrnl else StartField)\<rparr>)"
    using assms(4) by (auto simp: parse_process_char_def is_line_end_def after_line_end_def)
  ultimately show ?thesis
    using assms(3) Cons
    by (cases p) (simp add: parse_line_append add_char_def save_field_def)
qed

lemma parse_row_plain:
  "fs \<noteq> [] \<Longrightarrow> list_all plain_field fs \<Longrightarrow> pstate p = StartField \<Longrightarrow> pfield p = [] \<Longrightarrow>
   parse_line p (map Chr (join_fields fs @ [NL]) @ [EOL]) =
     Inr \<lparr>pstate = StartRecord, pfields = pfields p @ fs, pfield = []\<rparr>"
proof (induction fs arbitrary: p rule: join_fields.induct)
  case (2 f)
  then have "parse_line p (map Chr (f @ [NL])) = Inr \<lparr>pstate = EatCrnl, pfields = pfields p @ [f], pfield = []\<rparr>"
    using parse_field_plain [of f p NL] by simp
  then show ?case
    by (simp only: join_fields.simps parse_line_append) (simp add: parse_process_char_def)
next
  case (3 f g fs)
  then have h: "parse_line p (map Chr (f @ [csv_delimiter])) =
      Inr \<lparr>pstate = StartField, pfields = pfields p @ [f], pfield = []\<rparr>"
    using parse_field_plain [of f p csv_delimiter] by simp
  have eq: "map Chr (join_fields (f # g # fs) @ [NL]) @ [EOL] =
      map Chr (f @ [csv_delimiter]) @ (map Chr (join_fields (g # fs) @ [NL]) @ [EOL])"
    by simp
  show ?case
    unfolding eq parse_line_append [of p "map Chr (f @ [csv_delimiter])"] h py_bind_simps
    using "3.IH" [of "\<lparr>pstate = StartField, pfields = pfields p @ [f], pfield = []\<rparr>"] "3.prems"
    by simp
qed simp

lemma parse_start_record:
  "pstate p = StartRecord \<Longrightarrow> c \<noteq> NL \<Longrightarrow> c \<noteq> CR \<Longrightarrow>
   parse_process_char p (Chr c) = parse_process_char (p\<lparr>pstate := StartField\<rparr>) (Chr c)"
  by (simp add: parse_process_char_def)

lemma set_join_fields: "set (join_fields fs) \<subseteq> \<Union> (set ` set fs) \<union> {csv_delimiter}"
  by (induction fs rule: join_fields.induct) auto

lemma join_fields_no_line_break:
  "list_all plain_field fs \<Longrightarrow> NL \<notin> set (join_fields fs) \<and> CR \<notin> set (join_fields fs)"
  using set_join_fields [of fs] by (auto simp: plain_field_def list_all_iff)

lemma join_fields_nonempty: "fs \<noteq> [] \<Longrightarrow> fs \<noteq> [[]] \<Longrightarrow> join_fields fs \<noteq> []"
  by (cases fs rule: join_fields.cases) auto

lemma parse_record_plain:
  assumes "fs \<noteq> []" "fs \<noteq> [[]]" "list_all plain_field fs"
  shows "parse_line parser_reset (map Chr (join_fields fs @ [NL]) @ [EOL]) =
           Inr \<lparr>pstate = StartRecord, pfields = fs, pfield = []\<rparr>"
proof -
  obtain c cs where j: "join_fields fs = c # cs"
    using join_fields_nonempty [OF assms(1,2)] by (cases "join_fields fs") auto
  with join_fields_no_line_break [OF assms(3)] have "c \<noteq> NL" "c \<noteq> CR" by auto
  then have "parse_line parser_reset (map Chr (join_fields fs @ [NL]) @ [EOL]) =
      parse_line (parser_reset\<lparr>pstate := StartField\<rparr>) (map Chr (join_fields fs @ [NL]) @ [EOL])"
    using j by (simp add: parse_start_record parser_reset_def)
  also have "\<dots> = Inr \<lparr>pstate = StartRecord, pfields = fs, pfield = []\<rparr>"
    using parse_row_plain [OF assms(1,3)] by (simp add: parser_reset_def)
  finally show ?thesis .
qed

lemma split_lines_line:
  "NL \<notin> set l \<Longrightarrow> split_lines cur (l @ NL # rest) = (cur @ l @ [NL]) # split_lines [] rest"
  by (induction l arbitrary: cur) auto

lemma split_lines_csv_text:
  "list_all (\<lambda>r. list_all plain_field r) rows \<Longrightarrow>
   split_lines [] (csv_text rows) = map (\<lambda>r. join_fields r @ [NL]) rows"
  by (induction rows) (simp_all add: csv_text_def split_lines_line join_fields_no_line_break)

lemma reader_records_plain:
  "list_all (\<lambda>r. r \<noteq> [] \<and> r \<noteq> [[]] \<and> list_all plain_field r) rows \<Longrightarrow>
   reader_records parser_reset (map (\<lambda>r. join_fields r @ [NL]) rows) = Inr rows"
proof (induction rows)
  case (Cons r rows)
  then have "parse_line parser_reset (map Chr (join_fields r) @ [Chr NL, EOL]) =
      Inr \<lparr>pstate = StartRecord, pfields = r, pfield = []\<rparr>"
    using parse_record_plain [of r] by simp
  with Cons show ?case by simp
qed (simp add: parser_reset_def)

lemma universal_newlines_id: "CR \<notin> set s \<Longrightarrow> universal_newlines s = s"
  by (induction s rule: universal_newlines.induct) auto

lemma csv_text_no_CR:
  "list_all (\<lambda>r. list_all plain_field r) rows \<Longrightarrow> CR \<notin> set (csv_text rows)"
  by (induction rows) (auto simp: csv_text_def dest: join_fields_no_line_break)

lemma csv_reader_plain:
  assumes "list_all (\<lambda>r. r \<noteq> [] \<and> r \<noteq> [[]] \<and> list_all plain_field r) rows"
  shows "csv_reader (csv_text rows) = Inr rows"
proof -
  from assms have "list_all (\<lambda>r. list_all plain_field r) rows" by (simp add: list_all_iff)
  with assms show ?thesis
    by (simp add: csv_reader_def split_lines_csv_text reader_records_plain)
qed

text \<open>C15. Round trip of the tokeniser: rows of plain fields, written one
  line each as \<open>';'.join(row)\<close>, are read back as exactly these rows. (A row
  of one empty field is written as a blank line, which the reader returns as
  the empty record: the rows are required not to be such.)\<close>

theorem csv_reader_roundtrip:
  "list_all (\<lambda>r. r \<noteq> [] \<and> r \<noteq> [[]] \<and> list_all plain_field r) rows \<Longrightarrow>
   csv_reader (csv_text rows) = Inr rows"
  by (rule csv_reader_plain)

theorem csv_reader_roundtrip_witness:
  "list_all (\<lambda>r. r \<noteq> [] \<and> r \<noteq> [[]] \<and> list_all plain_field r)
     [[''Category'', ''Serial NO'', ''PRINT''], [''Violin'', '''', ''TRUE'']]
   \<and> csv_reader (csv_text [[''Category'', ''Serial NO'', ''PRINT''], [''Violin'', '''', ''TRUE'']]) =
     Inr [[''Category'', ''Serial NO'', ''PRINT''], [''Violin'', '''', ''TRUE'']]"
proof -
  have h: "list_all (\<lambda>r. r \<noteq> [] \<and> r \<noteq> [[]] \<and> list_all plain_field r)
     [[''Category'', ''Serial NO'', ''PRINT''], [''Violin'', '''', ''TRUE'']]"
    by (simp add: plain_field_def csv_delimiter_def csv_quotechar_def)
  show ?thesis using h csv_reader_roundtrip [OF h] by simp
qed

lemma instruments_from_csv_plain:
  assumes csvf: "fs csv_path = Some (csv_text (header # rows))"
    and ok: "list_all (\<lambda>r. r \<noteq> [] \<and> r \<noteq> [[]] \<and> list_all plain_field r) (header # rows)"
  shows "instruments_from_csv fs csv_path = Inr (map (\<lambda>r. \<lparr>row = dict_reader_row header r\<rparr>) rows)"
proof -
  from ok have "list_all (\<lambda>r. list_all plain_field r) (header # rows)" by (simp add: list_all_iff)
  then have "CR \<notin> set (csv_text (header # rows))" by (rule csv_text_no_CR)
  then have rt: "read_text fs csv_path = Inr (csv_text (header # rows))"
    using csvf by (simp add: read_text_def universal_newlines_id)
  have "csv_reader (csv_text (header # rows)) = Inr (header # rows)"
    using ok by (rule csv_reader_plain)
  moreover have "filter (\<lambda>r. r \<noteq> []) rows = rows"
    using ok by (simp add: list_all_iff)
  ultimately show ?thesis using rt by (simp add: instruments_from_csv_def)
qed


text \<open>C16. The loader on an inventory file written from a header and rows of
  plain fields: one instrument per row, in file order, whose dictionary is
  DictReader's row for the header.\<close>

theorem instruments_from_csv_rows:
  assumes "fs csv_path = Some (csv_text (header # rows))"
    and "list_all (\<lambda>r. r \<noteq> [] \<and> r \<noteq> [[]] \<and> list_all plain_field r) (header # rows)"
  shows "instruments_from_csv fs csv_path = Inr (map (\<lambda>r. \<lparr>row = dict_reader_row header r\<rparr>) rows)"
  using assms by (rule instruments_from_csv_plain)

theorem instruments_from_csv_rows_witness:
  "[''./inventory.csv'' \<mapsto> csv_text [[''Category'', ''PRINT''], [''Violin'', ''TRUE'']]] ''./inventory.csv'' =
     Some (csv_text ([''Category'', ''PRINT''] # [[''Violin'', ''TRUE'']]))
   \<and> list_all (\<lambda>r. r \<noteq> [] \<and> r \<noteq> [[]] \<and> list_all plain_field r)
       ([''Category'', ''PRINT''] # [[''Violin'', ''TRUE'']])
   \<and> instruments_from_csv [''./inventory.csv'' \<mapsto> csv_text [[''Category'', ''PRINT''], [''Violin'', ''TRUE'']]]
       ''./inventory.csv'' =
     Inr [\<lparr>row = dict_reader_row [''Category'', ''PRINT''] [''Violin'', ''TRUE'']\<rparr>]"
proof -
  have h1: "[''./inventory.csv'' \<mapsto> csv_text [[''Category'', ''PRINT''], [''Violin'', ''TRUE'']]] ''./inventory.csv'' =
     Some (csv_text ([''Category'', ''PRINT''] # [[''Violin'', ''TRUE'']]))" by simp
  have h2: "list_all (\<lambda>r. r \<noteq> [] \<and> r \<noteq> [[]] \<and> list_all plain_field r)
       ([''Category'', ''PRINT''] # [[''Violin'', ''TRUE'']])"
    by (simp add: plain_field_def csv_delimiter_def csv_quotechar_def)
  show ?thesis
    using h1 h2 instruments_from_csv_rows [where csv_path = "''./inventory.csv''"
        and fs = "[''./inventory.csv'' \<mapsto> csv_text [[''Category'', ''PRINT''], [''Violin'', ''TRUE'']]]"
        and header = "[''Category'', ''PRINT'']" and rows = "[[''Violin'', ''TRUE'']]", OF h1 h2]
    by simp
qed

text \<open>C17. DictReader's row: with a header of distinct column names, column
  \<open>i\<close> of the dictionary holds field \<open>i\<close> of the row, or \<open>None\<close> when the
  row is too short to have it; a name that is not in the header is not a
  key (its subscript raises \<open>KeyError\<close>).\<close>

theorem dict_reader_row_lookup:
  assumes d: "distinct fieldnames"
  shows "(i < length fieldnames \<longrightarrow>
            dict_reader_row fieldnames r (fieldnames ! i) =
              Some (if i < length r then PStr (r ! i) else PNone))
       \<and> (k \<notin> set fieldnames \<longrightarrow> dict_reader_row fieldnames r k = None)"
proof (intro conjI impI)
  let ?n = "length r"
  let ?zs = "zip fieldnames (map PStr r)"
  have dz: "distinct (map fst ?zs)" using d by (simp add: map_fst_zip_take distinct_take)
  have disj: "set (take ?n fieldnames) \<inter> set (drop ?n fieldnames) = {}"
    using d distinct_append [of "take ?n fieldnames" "drop ?n fieldnames"] by simp
  assume i: "i < length fieldnames"
  show "dict_reader_row fieldnames r (fieldnames ! i) = Some (if i < length r then PStr (r ! i) else PNone)"
  proof (cases "i < ?n")
    case True
    have "take ?n fieldnames ! i \<in> set (take ?n fieldnames)"
      using True i by (intro nth_mem) simp
    then have "fieldnames ! i \<in> set (take ?n fieldnames)" using True by simp
    with disj have nd: "fieldnames ! i \<notin> set (drop ?n fieldnames)" by blast
    have "(fieldnames ! i, PStr (r ! i)) \<in> set ?zs"
      using True i by (auto simp: set_zip)
    with dz have "map_of ?zs (fieldnames ! i) = Some (PStr (r ! i))"
      by (rule map_of_is_SomeI)
    with nd True dz show ?thesis
      by (simp add: dict_reader_row_def map_add_def map_of_const_keys map_of_rev_distinct)
  next
    case False
    have "drop ?n fieldnames ! (i - ?n) \<in> set (drop ?n fieldnames)"
      using False i by (intro nth_mem) simp
    then have "fieldnames ! i \<in> set (drop ?n fieldnames)" using False i by simp
    with False show ?thesis
      by (simp add: dict_reader_row_def map_add_def map_of_const_keys)
  qed
next
  assume k: "k \<notin> set fieldnames"
  then have "k \<notin> fst ` set (rev (zip fieldnames (map PStr r)))" by (auto dest: set_zip_leftD)
  then have "map_of (rev (zip fieldnames (map PStr r))) k = None" by (simp add: map_of_eq_None_iff)
  moreover have "k \<notin> set (drop (length r) fieldnames)" using k by (auto dest: in_set_dropD)
  ultimately show "dict_reader_row fieldnames r k = None"
    by (simp add: dict_reader_row_def map_add_def map_of_const_keys)
qed

theorem dict_reader_row_lookup_witness:
  "distinct [''Category'', ''Serial NO'', ''PRINT'']
   \<and> dict_reader_row [''Category'', ''Serial NO'', ''PRINT''] [''Violin'']
       ([''Category'', ''Serial NO'', ''PRINT''] ! 2) = Some PNone"
proof -
  have d: "distinct [''Category'', ''Serial NO'', ''PRINT'']" by simp
  show ?thesis using d dict_reader_row_lookup [OF d, of 2 "[''Violin'']"] by simp
qed

lemma dom_dict_reader_row [simp]: "dom (dict_reader_row fieldnames r) = set fieldnames"
proof -
  have 1: "dom (map_of (rev (zip fieldnames (map PStr r)))) = set (take (length r) fieldnames)"
    by (simp only: dom_map_of_conv_image_fst set_rev image_set map_fst_zip_take length_map)
      (simp add: min_def)
  have 2: "dom (map_of (map (\<lambda>k. (k, PNone)) ks)) = set ks" for ks :: "string list"
    by (simp add: dom_map_of_conv_image_fst image_image)
  have 3: "set (take (length r) fieldnames) \<union> set (drop (length r) fieldnames) = set fieldnames"
    using set_append [of "take (length r) fieldnames" "drop (length r) fieldnames"] by simp
  show ?thesis
    using 1 2 [of "drop (length r) fieldnames"] 3 by (auto simp: dict_reader_row_def)
qed

text \<open>C24. Type of the loaded records: whatever the file holds, when the
  loader returns, every record has exactly the same keys, the field names of
  the header row. An accessor therefore raises \<open>KeyError\<close> on every record
  or on none.\<close>

theorem instruments_from_csv_keys:
  assumes "instruments_from_csv fs csv_path = Inr insts"
  shows "\<exists>names. list_all (\<lambda>inst. dom (row inst) = set names) insts"
proof -
  from assms obtain contents rows where "csv_reader contents = Inr rows"
    and insts: "insts = map (\<lambda>r. \<lparr>row = r\<rparr>) (dict_reader rows)"
    by (auto simp: instruments_from_csv_def)
  show ?thesis
  proof (cases rows)
    case Nil
    with insts show ?thesis by simp
  next
    case (Cons header rs)
    with insts show ?thesis by (auto simp: list_all_iff)
  qed
qed

theorem instruments_from_csv_keys_witness:
  "instruments_from_csv [''inv.csv'' \<mapsto> csv_text [[''Category'', ''PRINT''], [''Violin'', ''TRUE''], [''Cello'']]] ''inv.csv'' =
     Inr (map (\<lambda>r. \<lparr>row = dict_reader_row [''Category'', ''PRINT''] r\<rparr>) [[''Violin'', ''TRUE''], [''Cello'']])
   \<and> (\<exists>names. list_all (\<lambda>inst. dom (row inst) = set names)
        (map (\<lambda>r. \<lparr>row = dict_reader_row [''Category'', ''PRINT''] r\<rparr>) [[''Violin'', ''TRUE''], [''Cello'']]))"
proof -
  have h: "instruments_from_csv [''inv.csv'' \<mapsto> csv_text [[''Category'', ''PRINT''], [''Violin'', ''TRUE''], [''Cello'']]] ''inv.csv'' =
     Inr (map (\<lambda>r. \<lparr>row = dict_reader_row [''Category'', ''PRINT''] r\<rparr>) [[''Violin'', ''TRUE''], [''Cello'']])"
    by (rule instruments_from_csv_plain) (simp_all add: plain_field_def csv_delimiter_def csv_quotechar_def)
  show ?thesis using h instruments_from_csv_keys [OF h] by blast
qed

end
