(* ===== verification/MainPy.thy ===== *)
theory MainPy
  imports Layout
begin

text \<open>The module \<^verbatim>\<open>src/main.py\<close> on its own: its copy of class
  \<open>Instrument\<close>, of \<open>text_from_instrument\<close>, \<open>replace_new_lines\<close> and the
  two styles, its grid constants, and the loop of its \<open>main()\<close>, which
  draws the literal \<open>return_address\<close> on every tag. The definitions are
  written from the lines of \<^verbatim>\<open>main.py\<close>; the lemmas show that each is the
  function of the same name in \<^verbatim>\<open>make_tags.py\<close>, and that the loop is the
  loop of \<^verbatim>\<open>make_tags.py\<close> with a literal address source.\<close>

section \<open>class Instrument\<close>

definition mp_category :: "instrument \<Rightarrow> pyval py_result" where
  "mp_category inst = dict_get (row inst) ''Category''"

definition mp_model :: "instrument \<Rightarrow> pyval py_result" where
  "mp_model inst = dict_get (row inst) ''Model''"

definition mp_serial_no :: "instrument \<Rightarrow> pyval py_result" where
  "mp_serial_no inst = dict_get (row inst) ''Serial NO''"

definition mp_size :: "instrument \<Rightarrow> pyval py_result" where
  "mp_size inst = dict_get (row inst) ''Size''"

definition mp_student :: "instrument \<Rightarrow> pyval py_result" where
  "mp_student inst = dict_get (row inst) ''Student''"

definition mp_print_please :: "instrument \<Rightarrow> bool py_result" where
  "mp_print_please inst = py_bind (dict_get (row inst) ''PRINT'') (\<lambda>v. Inr (v = PStr ''TRUE''))"

section \<open>Formatting\<close>

definition mp_text_from_instrument :: "instrument \<Rightarrow> string py_result" where
  "mp_text_from_instrument inst =
     py_bind (mp_category inst) (\<lambda>cat.
     py_bind (mp_model inst) (\<lambda>mdl.
     py_bind (mp_serial_no inst) (\<lambda>serial0.
     py_bind (py_len serial0) (\<lambda>l.
     (let serial = (if l = 0 then PStr ''N/A'' else serial0) in
     py_bind (mp_size inst) (\<lambda>sz.
     py_bind (mp_student inst) (\<lambda>stud.
     Inr (tag_template (py_str cat) (py_str mdl) (py_str serial)
                       (py_str sz) (py_str stud)))))))))"

definition mp_replace_new_lines :: "string \<Rightarrow> string" where
  "mp_replace_new_lines string = py_replace string [NL] ''<br/>''"

definition mp_address_style :: paragraph_style where
  "mp_address_style = \<lparr>style_name = ''Address'', font_name = ''Courier'', font_size = 12, space_after = 10\<rparr>"

definition mp_body_style :: paragraph_style where
  "mp_body_style = \<lparr>style_name = ''Body'', font_name = ''Courier'', font_size = 12, space_after = 0\<rparr>"

section \<open>main()\<close>

text \<open>\<open>tag_width = 69 * mm\<close>, \<open>tag_height = 98 * mm\<close>, \<open>rows = 3\<close>,
  \<open>cols = 3\<close>.\<close>

definition mp_grid :: config where
  "mp_grid = \<lparr>tag_width = 69, tag_height = 98, rows = 3, cols = 3\<rparr>"

text \<open>Drawing one tag: the text first, then the frame of the cell and the
  two paragraphs, the literal address above the record's text.\<close>

definition mp_place_tag :: "instrument \<Rightarrow> tag_state \<Rightarrow> tag_state py_result" where
  "mp_place_tag inst st =
     py_bind (mp_text_from_instrument inst) (\<lambda>inst_text.
       Inr (st\<lparr>canvas := add_from_list (tag_frame mp_grid (tag_index st))
                  [Paragraph (mp_replace_new_lines return_address) mp_address_style,
                   Paragraph (mp_replace_new_lines inst_text) mp_body_style] (canvas st),
               tag_index := tag_index st + 1\<rparr>))"

definition mp_tag_step :: "tag_state \<Rightarrow> instrument \<Rightarrow> tag_state py_result" where
  "mp_tag_step st inst =
     py_bind (mp_print_please inst) (\<lambda>pp.
       if \<not> pp then Inr st
       else py_bind (open_slot mp_grid st) (mp_place_tag inst))"

fun mp_tag_loop :: "tag_state \<Rightarrow> instrument list \<Rightarrow> tag_state py_result" where
  "mp_tag_loop st [] = Inr st"
| "mp_tag_loop st (inst # insts) = py_bind (mp_tag_step st inst) (\<lambda>st'. mp_tag_loop st' insts)"

section \<open>Lemmas\<close>

lemma mp_accessors_eq:
  "mp_category = category" "mp_model = model" "mp_serial_no = serial_no"
  "mp_size = size_value" "mp_student = student" "mp_print_please = print_please"
  by (simp_all add: fun_eq_iff mp_category_def category_def mp_model_def model_def
      mp_serial_no_def serial_no_def mp_size_def size_value_def mp_student_def student_def
      mp_print_please_def print_please_def)

lemma mp_formatting_eq:
  "mp_text_from_instrument = text_from_instrument" "mp_replace_new_lines = replace_new_lines"
  "mp_address_style = address_style" "mp_body_style = body_style" "mp_grid = main_config"
  by (simp_all add: fun_eq_iff mp_text_from_instrument_def text_from_instrument_def mp_accessors_eq
      mp_replace_new_lines_def replace_new_lines_def mp_address_style_def address_style_def
      mp_body_style_def body_style_def mp_grid_def main_config_def)

lemma mp_place_tag_eq:
  "mp_place_tag inst st = place_tag main_config (AddrLiteral return_address) fs inst st"
  by (simp add: mp_place_tag_def place_tag_def tag_parts_def mp_formatting_eq)

lemma mp_tag_step_eq:
  "mp_tag_step st inst = tag_step main_config (AddrLiteral return_address) fs st inst"
  unfolding mp_tag_step_def tag_step_def py_bind_def
  by (simp add: mp_place_tag_eq [where fs=fs] mp_accessors_eq mp_formatting_eq split: sum.split)

lemma mp_tag_loop_refines:
  "mp_tag_loop st insts = tag_loop main_config (AddrLiteral return_address) fs st insts"
  by (induction insts arbitrary: st) (simp_all add: mp_tag_step_eq [where fs=fs])

text \<open>C27. The loop of \<^verbatim>\<open>main.py\<close>, written from its own copies of the
  class, the formatter, the styles and the grid constants, is the loop of
  \<^verbatim>\<open>make_tags.py\<close> on the same grid with the literal return address as
  address source, on every list of instruments and from every state, errors
  included: the two near-duplicate scripts do not diverge.\<close>

theorem mp_tag_loop_eq:
  "mp_tag_loop st insts = tag_loop main_config (AddrLiteral return_address) fs st insts"
  by (rule mp_tag_loop_refines)

end
