(* ===== verification/Pipeline.thy ===== *)
theory Pipeline
  imports Layout Loader MainPy
begin

text \<open>The two entry points. \<open>main()\<close> of \<^verbatim>\<open>src/main.py\<close> reads
  \<^verbatim>\<open>./violin_inventory.csv\<close>, draws the literal return address and saves
  \<^verbatim>\<open>tuto1.pdf\<close>; \<open>main()\<close> of \<^verbatim>\<open>src/make_tags.py\<close> takes the three paths
  of its command line (the namespace \<open>argparse\<close> returns is the record
  \<open>args\<close>; parsing the argument strings is not modelled) and reads the
  address file for every tag.\<close>

record args =
  arg_address :: path
  arg_inventory :: path
  arg_output :: path

text \<open>The defaults of the three options.\<close>

definition default_args :: args where
  "default_args =
     \<lparr>arg_address = ''./address.txt'', arg_inventory = ''./inventory.csv'', arg_output = ''./inventory.pdf''\<rparr>"

definition make_tags_main :: "args \<Rightarrow> files \<Rightarrow> pdf py_result" where
  "make_tags_main a fs =
     py_bind (instruments_from_csv fs (arg_inventory a)) (\<lambda>instruments.
       render_tags main_config (AddrFile (arg_address a)) fs (arg_output a) instruments)"

text \<open>\<open>main()\<close> of \<^verbatim>\<open>main.py\<close>: its loop \<open>mp_tag_loop\<close> over the
  instruments, between \<open>Canvas('tuto1.pdf', pagesize=A4)\<close> with
  \<open>setFont('Courier', 16)\<close> and \<open>canvas.save()\<close>.\<close>

definition main_py :: "files \<Rightarrow> pdf py_result" where
  "main_py fs =
     py_bind (instruments_from_csv fs ''./violin_inventory.csv'') (\<lambda>instruments.
     py_bind (mp_tag_loop (init_state ''tuto1.pdf'') instruments) (\<lambda>st.
       Inr (save (canvas st))))"

text \<open>An inventory file of thirteen rows, the first ten flagged for printing,
  the fourth without a serial number.\<close>

definition sample_header :: "string list" where
  "sample_header = [''Category'', ''Model'', ''Serial NO'', ''Size'', ''Student'', ''PRINT'']"

definition sample_rows :: "string list list" where
  "sample_rows = map (\<lambda>i. [''Violin'', ''V5'', if i = 3 then '''' else ''S1'', ''4/4'', ''Kari'',
               if i < (10::nat) then ''TRUE'' else ''FALSE'']) [0..<13]"

definition sample_csv :: string where
  "sample_csv = csv_text (sample_header # sample_rows)"

section \<open>Lemmas\<close>

lemma main_py_render:
  "main_py fs = py_bind (instruments_from_csv fs ''./violin_inventory.csv'')
     (render_tags main_config (AddrLiteral return_address) fs ''tuto1.pdf'')"
  unfolding main_py_def render_tags_def by (simp add: mp_tag_loop_refines [where fs=fs])

lemma tag_step_addr_cong:
  assumes "address_of fs a1 = address_of fs a2"
  shows "tag_step cfg a1 fs st inst = tag_step cfg a2 fs st inst"
  using assms unfolding tag_step_def place_tag_def py_bind_def
  by (simp split: sum.split)

lemma render_tags_addr_cong:
  assumes "address_of fs a1 = address_of fs a2"
  shows "render_tags cfg a1 fs output insts = render_tags cfg a2 fs output insts"
proof -
  have "tag_loop cfg a1 fs st insts = tag_loop cfg a2 fs st insts" for st
    using assms by (induction insts arbitrary: st) (simp_all add: tag_step_addr_cong [OF assms])
  then show ?thesis by (simp add: render_tags_def)
qed

lemma return_address_no_CR: "CR \<notin> set return_address"
  by (simp add: return_address_def)

lemma make_tags_main_instruments:
  assumes inst: "instruments_from_csv fs (arg_inventory a) = Inr insts"
    and adr: "fs (arg_address a) = Some addr"
    and oks: "list_all inst_ok insts"
  shows "make_tags_main a fs =
    Inr (Pdf (arg_output a) (with_prefix [SetFont ''Courier'' 16]
      (layout_pages main_config (universal_newlines addr) (tag_texts insts))))"
proof -
  have cap: "0 < capacity main_config" by (simp add: capacity_def main_config_def)
  have "address_of fs (AddrFile (arg_address a)) = Inr (universal_newlines addr)"
    using adr by (simp add: address_def read_text_def)
  with inst render_tags_layout [OF cap oks] show ?thesis
    by (simp add: make_tags_main_def)
qed

text \<open>C18. Error path of both entry points: a missing inventory file raises
  \<open>FileNotFoundError\<close> before anything is drawn, and no document is saved.\<close>

theorem main_missing_inventory:
  "(fs (arg_inventory a) = None \<longrightarrow> make_tags_main a fs = Inl (FileNotFoundError (arg_inventory a)))
   \<and> (fs ''./violin_inventory.csv'' = None \<longrightarrow>
        main_py fs = Inl (FileNotFoundError ''./violin_inventory.csv''))"
  by (simp add: make_tags_main_def main_py_def instruments_from_csv_def read_text_def)

theorem main_missing_inventory_witness:
  "(Map.empty :: files) (arg_inventory default_args) = None
   \<and> make_tags_main default_args Map.empty = Inl (FileNotFoundError ''./inventory.csv'')
   \<and> (Map.empty :: files) ''./violin_inventory.csv'' = None
   \<and> main_py Map.empty = Inl (FileNotFoundError ''./violin_inventory.csv'')"
  using main_missing_inventory [of "Map.empty" default_args] by (simp add: default_args_def)

text \<open>C19. The two scripts agree: \<^verbatim>\<open>main.py\<close> behaves as \<^verbatim>\<open>make_tags.py\<close>
  run with its hard-coded inventory and output paths and an address file
  that holds the literal \<open>return_address\<close>.\<close>

theorem main_py_is_make_tags:
  assumes "fs p = Some return_address"
  shows "main_py fs =
    make_tags_main \<lparr>arg_address = p, arg_inventory = ''./violin_inventory.csv'', arg_output = ''tuto1.pdf''\<rparr> fs"
proof -
  have "address_of fs (AddrLiteral return_address) = address_of fs (AddrFile p)"
    using assms return_address_no_CR
    by (simp add: address_def read_text_def universal_newlines_id)
  then have "render_tags main_config (AddrLiteral return_address) fs ''tuto1.pdf''
      = render_tags main_config (AddrFile p) fs ''tuto1.pdf''"
    by (intro ext render_tags_addr_cong)
  then show ?thesis
    unfolding main_py_render make_tags_main_def by simp
qed

theorem main_py_is_make_tags_witness:
  "[''./address.txt'' \<mapsto> return_address] ''./address.txt'' = Some return_address
   \<and> main_py [''./address.txt'' \<mapsto> return_address] =
     make_tags_main \<lparr>arg_address = ''./address.txt'', arg_inventory = ''./violin_inventory.csv'',
                     arg_output = ''tuto1.pdf''\<rparr> [''./address.txt'' \<mapsto> return_address]"
proof -
  have h: "[''./address.txt'' \<mapsto> return_address] ''./address.txt'' = Some return_address" by simp
  show ?thesis using h main_py_is_make_tags [where fs="[''./address.txt'' \<mapsto> return_address]" and p="''./address.txt''"] by blast
qed

text \<open>C20. End to end: \<^verbatim>\<open>make_tags.py\<close> on an inventory file written from a
  header and rows of plain fields, with an address file present, produces the
  abstract layout of the tags of the rows flagged for printing (provided
  reportlab's \<open>Paragraph\<close> accepts the markup of the tags).\<close>

theorem make_tags_main_layout:
  assumes inv: "fs (arg_inventory a) = Some (csv_text (header # rs))"
    and plain: "list_all (\<lambda>r. r \<noteq> [] \<and> r \<noteq> [[]] \<and> list_all plain_field r) (header # rs)"
    and adr: "fs (arg_address a) = Some addr"
    and oks: "list_all inst_ok (map (\<lambda>r. \<lparr>row = dict_reader_row header r\<rparr>) rs)"
  shows "make_tags_main a fs =
    Inr (Pdf (arg_output a) (with_prefix [SetFont ''Courier'' 16]
      (layout_pages main_config (universal_newlines addr)
         (tag_texts (map (\<lambda>r. \<lparr>row = dict_reader_row header r\<rparr>) rs)))))"
  using make_tags_main_instruments [OF instruments_from_csv_plain
      [where fs=fs and csv_path="arg_inventory a" and header=header and rows=rs, OF inv plain] adr oks] .

theorem make_tags_main_layout_witness:
  "[''./inventory.csv'' \<mapsto> sample_csv, ''./address.txt'' \<mapsto> return_address] (arg_inventory default_args) =
     Some (csv_text (sample_header # sample_rows))
   \<and> list_all (\<lambda>r. r \<noteq> [] \<and> r \<noteq> [[]] \<and> list_all plain_field r) (sample_header # sample_rows)
   \<and> [''./inventory.csv'' \<mapsto> sample_csv, ''./address.txt'' \<mapsto> return_address] (arg_address default_args) =
     Some return_address
   \<and> list_all inst_ok (map (\<lambda>r. \<lparr>row = dict_reader_row sample_header r\<rparr>) sample_rows)
   \<and> make_tags_main default_args [''./inventory.csv'' \<mapsto> sample_csv, ''./address.txt'' \<mapsto> return_address] =
     Inr (Pdf (arg_output default_args) (with_prefix [SetFont ''Courier'' 16]
       (layout_pages main_config (universal_newlines return_address)
         (tag_texts (map (\<lambda>r. \<lparr>row = dict_reader_row sample_header r\<rparr>) sample_rows)))))"
proof -
  let ?fs = "[''./inventory.csv'' \<mapsto> sample_csv, ''./address.txt'' \<mapsto> return_address]"
  have h1: "?fs (arg_inventory default_args) = Some (csv_text (sample_header # sample_rows))"
    by (simp add: default_args_def sample_csv_def)
  have h2: "list_all (\<lambda>r. r \<noteq> [] \<and> r \<noteq> [[]] \<and> list_all plain_field r) (sample_header # sample_rows)"
    by code_simp
  have h3: "?fs (arg_address default_args) = Some return_address"
    by (simp add: default_args_def)
  have h4: "list_all inst_ok (map (\<lambda>r. \<lparr>row = dict_reader_row sample_header r\<rparr>) sample_rows)"
    by code_simp
  show ?thesis
    using h1 h2 h3 h4 make_tags_main_layout [OF h1 h2 h3 h4] by blast
qed

end
