(* ===== verification/CsvQuoted.thy ===== *)
theory CsvQuoted
  imports Loader
begin

text \<open>Quoted fields in the inventory file. The tokeniser of \<open>Loader\<close> reads
  a field between double quotes verbatim: a doubled quote stands for one
  quote, and a separator or a line feed inside the quotes belongs to the
  field, so that a record may span several lines of the file. The fields
  are written here as \<open>csv.writer\<close> with \<open>quoting=csv.QUOTE_ALL\<close> writes
  them, and the file is read back through the record boundaries that
  \<open>Reader_iternext\<close> finds after each line.\<close>

section \<open>Writing quoted rows\<close>

definition quote_char :: "char \<Rightarrow> string" where
  "quote_char c = (if c = csv_quotechar then [csv_quotechar, csv_quotechar] else [c])"

definition quote_field :: "string \<Rightarrow> string" where
  "quote_field f = csv_quotechar # concat (map quote_char f) @ [csv_quotechar]"

definition quoted_text :: "string list list \<Rightarrow> string" where
  "quoted_text rows = concat (map (\<lambda>r. join_fields (map quote_field r) @ [NL]) rows)"

section \<open>The reader as one stream of events\<close>

text \<open>The events the reader feeds the state machine: each character of a
  line and an end-of-line event after each line; since lines end after a
  line feed, the stream of a text is the text with an \<open>EOL\<close> after every
  line feed.\<close>

fun eol_stream :: "string \<Rightarrow> csv_input list" where
  "eol_stream [] = []"
| "eol_stream (c # cs) = (if c = NL then [Chr NL, EOL] else [Chr c]) @ eol_stream cs"

text \<open>Records cut from the event stream: a record ends at an \<open>EOL\<close> that
  leaves the machine in \<open>START_RECORD\<close>.\<close>

fun stream_records :: "csv_parser \<Rightarrow> csv_input list \<Rightarrow> string list list py_result" where
  "stream_records p [] = reader_records p []"
| "stream_records p (x # xs) =
     py_bind (parse_process_char p x) (\<lambda>p'.
       if x = EOL \<and> pstate p' = StartRecord
       then py_bind (stream_records parser_reset xs) (\<lambda>rows. Inr (pfields p' # rows))
       else stream_records p' xs)"

section \<open>Lemmas\<close>

lemma eol_stream_append [simp]: "eol_stream (xs @ ys) = eol_stream xs @ eol_stream ys"
  by (induction xs) simp_all

lemma stream_records_line:
  "stream_records p (map Chr l @ EOL # xs) =
     py_bind (parse_line p (map Chr l @ [EOL])) (\<lambda>p'.
       if pstate p' = StartRecord
       then py_bind (stream_records parser_reset xs) (\<lambda>rows. Inr (pfields p' # rows))
       else stream_records p' xs)"
proof (induction l arbitrary: p)
  case Nil
  show ?case by (simp add: py_bind_assoc)
next
  case (Cons c l)
  show ?case by (simp add: py_bind_assoc Cons.IH)
qed

lemma reader_records_stream:
  "reader_records p ls = stream_records p (concat (map (\<lambda>l. map Chr l @ [EOL]) ls))"
proof (induction p ls rule: reader_records.induct)
  case (2 p l ls)
  show ?case
    by (simp add: stream_records_line) (metis (no_types) "2.IH")
qed simp

lemma split_lines_stream:
  "s \<noteq> [] \<Longrightarrow> last s = NL \<Longrightarrow>
   concat (map (\<lambda>l. map Chr l @ [EOL]) (split_lines cur s)) = map Chr cur @ eol_stream s"
proof (induction s arbitrary: cur)
  case (Cons c cs)
  show ?case
  proof (cases "cs = []")
    case True
    with Cons.prems show ?thesis by simp
  next
    case False
    with Cons.prems have l: "last cs = NL" by simp
    show ?thesis
    proof (cases "c = NL")
      case True
      then show ?thesis using Cons.IH [OF False l, of "[]"] by simp
    next
      case c: False
      then show ?thesis using Cons.IH [OF False l, of "cur @ [c]"] by simp
    qed
  qed
qed simp

lemma csv_reader_stream:
  assumes "s = [] \<or> last s = NL"
  shows "csv_reader s = stream_records parser_reset (eol_stream s)"
proof (cases "s = []")
  case True
  then show ?thesis by (simp add: csv_reader_def)
next
  case False
  with assms split_lines_stream [of s "[]"] show ?thesis
    by (simp add: csv_reader_def reader_records_stream)
qed

lemma stream_quoted_chars:
  "pstate p = InQuotedField \<Longrightarrow>
   stream_records p (eol_stream (concat (map quote_char f)) @ rest) =
   stream_records (p\<lparr>pfield := pfield p @ f\<rparr>) rest"
proof (induction f arbitrary: p)
  case (Cons c f)
  let ?p = "p\<lparr>pfield := pfield p @ [c]\<rparr>"
  have "stream_records p (eol_stream (quote_char c) @ rest') = stream_records ?p rest'" for rest'
    using Cons.prems
    by (cases p) (auto simp: quote_char_def parse_process_char_def add_char_def)
  then show ?case
    using Cons.IH [of ?p] Cons.prems by simp
qed simp

lemma stream_quoted_field:
  assumes "pstate p = StartRecord \<or> pstate p = StartField" and "pfield p = []"
  shows "stream_records p (eol_stream (quote_field f) @ rest) =
    stream_records (p\<lparr>pstate := QuoteInQuotedField, pfield := f\<rparr>) rest"
proof -
  let ?q = "p\<lparr>pstate := InQuotedField\<rparr>"
  have "parse_process_char p (Chr csv_quotechar) = Inr ?q"
    using assms(1) by (auto simp: parse_process_char_def start_field_def is_line_end_def)
  then have "stream_records p (eol_stream (quote_field f) @ rest) =
      stream_records ?q (eol_stream (concat (map quote_char f)) @ Chr csv_quotechar # rest)"
    by (simp add: quote_field_def)
  also have "\<dots> = stream_records (?q\<lparr>pfield := f\<rparr>) (Chr csv_quotechar # rest)"
    using stream_quoted_chars [of ?q f] assms(2) by simp
  also have "\<dots> = stream_records (p\<lparr>pstate := QuoteInQuotedField, pfield := f\<rparr>) rest"
    by (cases p) (simp add: parse_process_char_def)
  finally show ?thesis .
qed

lemma stream_quoted_row:
  "r \<noteq> [] \<Longrightarrow> pstate p = StartRecord \<or> pstate p = StartField \<Longrightarrow> pfield p = [] \<Longrightarrow>
   stream_records p (eol_stream (join_fields (map quote_field r) @ [NL]) @ rest) =
   py_bind (stream_records parser_reset rest) (\<lambda>rows. Inr ((pfields p @ r) # rows))"
proof (induction r arbitrary: p)
  case (Cons f r)
  let ?q = "p\<lparr>pstate := QuoteInQuotedField, pfield := f\<rparr>"
  show ?case
  proof (cases r)
    case Nil
    have "stream_records ?q ([Chr NL, EOL] @ rest) =
        py_bind (stream_records parser_reset rest) (\<lambda>rows. Inr ((pfields p @ [f]) # rows))"
      by (cases p) (simp add: parse_process_char_def is_line_end_def after_line_end_def save_field_def)
    with Nil stream_quoted_field [OF Cons.prems(2,3), of f "[Chr NL, EOL] @ rest"] show ?thesis
      by simp
  next
    case (Cons g rs)
    let ?s = "\<lparr>pstate = StartField, pfields = pfields p @ [f], pfield = []\<rparr>"
    have "stream_records ?q (Chr csv_delimiter # rest') = stream_records ?s rest'" for rest'
      by (cases p) (simp add: parse_process_char_def is_line_end_def save_field_def)
    moreover have "stream_records ?s (eol_stream (join_fields (map quote_field r) @ [NL]) @ rest) =
        py_bind (stream_records parser_reset rest) (\<lambda>rows. Inr ((pfields p @ f # r) # rows))"
      using "Cons.IH" [of ?s] Cons by simp
    ultimately show ?thesis
      using stream_quoted_field [OF "Cons.prems"(2,3), of f] Cons by simp
  qed
qed simp

lemma stream_quoted_text:
  "list_all (\<lambda>r. r \<noteq> []) rows \<Longrightarrow>
   stream_records parser_reset (eol_stream (quoted_text rows)) = Inr rows"
proof (induction rows)
  case Nil
  show ?case by (simp add: quoted_text_def parser_reset_def)
next
  case (Cons r rows)
  then show ?case
    using stream_quoted_row [of r parser_reset "eol_stream (quoted_text rows)"]
    by (simp add: quoted_text_def parser_reset_def)
qed

lemma quoted_text_last: "quoted_text rows = [] \<or> last (quoted_text rows) = NL"
  by (induction rows) (auto simp: quoted_text_def)
lemma set_quote_field: "set (quote_field f) \<subseteq> set f \<union> {csv_quotechar}"
  by (auto simp: quote_field_def quote_char_def split: if_splits)

lemma quoted_text_no_CR:
  "\<forall>r\<in>set rows. \<forall>f\<in>set r. CR \<notin> set f \<Longrightarrow> CR \<notin> set (quoted_text rows)"
proof (induction rows)
  case (Cons r rows)
  have "CR \<notin> set (join_fields (map quote_field r))"
  proof
    assume "CR \<in> set (join_fields (map quote_field r))"
    then obtain f where "f \<in> set r" "CR \<in> set (quote_field f)"
      using set_join_fields [of "map quote_field r"] by auto
    with Cons.prems set_quote_field [of f] show False by auto
  qed
  with Cons show ?case by (simp add: quoted_text_def)
qed (simp add: quoted_text_def)

lemma universal_newlines_cons:
  "c \<noteq> CR \<Longrightarrow> universal_newlines (c # xs) = c # universal_newlines xs"
  by (cases xs) simp_all

lemma universal_newlines_append:
  "\<not> (xs \<noteq> [] \<and> ys \<noteq> [] \<and> last xs = CR \<and> hd ys = NL) \<Longrightarrow>
     universal_newlines (xs @ ys) = universal_newlines xs @ universal_newlines ys"
proof (induction xs arbitrary: ys rule: universal_newlines.induct)
  case (2 c)
  then show ?case by (cases ys) (auto simp: universal_newlines_cons)
next
  case (3 c d cs)
  then show ?case by (cases cs) (auto simp: universal_newlines_cons)
qed simp

lemma universal_newlines_quote_char:
  "c \<noteq> CR \<Longrightarrow> universal_newlines (quote_char c @ rest) = quote_char c @ universal_newlines rest"
  by (simp add: quote_char_def universal_newlines_cons csv_quotechar_def)

lemma universal_newlines_quote_chars:
  "universal_newlines (concat (map quote_char f)) = concat (map quote_char (universal_newlines f))"
proof (induction f rule: universal_newlines.induct)
  case (3 c d cs)
  show ?case
  proof (cases "c = CR")
    case True
    then show ?thesis using 3
      by (cases "d = NL") (auto simp: quote_char_def csv_quotechar_def)
  next
    case False
    then show ?thesis using 3 by (simp add: universal_newlines_quote_char)
  qed
qed (simp_all add: quote_char_def csv_quotechar_def)

lemma universal_newlines_quote_field:
  "universal_newlines (quote_field f @ ys) = quote_field (universal_newlines f) @ universal_newlines ys"
proof -
  have q: "csv_quotechar \<noteq> CR" "csv_quotechar \<noteq> NL" by (simp_all add: csv_quotechar_def)
  have "universal_newlines (concat (map quote_char f) @ csv_quotechar # ys)
      = concat (map quote_char (universal_newlines f)) @ csv_quotechar # universal_newlines ys"
    using universal_newlines_append [of "concat (map quote_char f)" "csv_quotechar # ys"] q
    by (simp add: universal_newlines_quote_chars universal_newlines_cons)
  then show ?thesis using q by (simp add: quote_field_def universal_newlines_cons)
qed

lemma universal_newlines_join_quoted:
  "universal_newlines (join_fields (map quote_field r) @ ys) =
     join_fields (map quote_field (map universal_newlines r)) @ universal_newlines ys"
proof (induction r arbitrary: ys rule: induct_list012)
  case (3 f g fs)
  have "csv_delimiter \<noteq> CR" by (simp add: csv_delimiter_def)
  then show ?case using 3(2) [of ys]
    by (simp add: universal_newlines_quote_field universal_newlines_cons)
qed (simp_all add: universal_newlines_quote_field)

lemma universal_newlines_quoted_text:
  "universal_newlines (quoted_text rows) = quoted_text (map (map universal_newlines) rows)"
  by (induction rows)
    (simp_all add: quoted_text_def universal_newlines_join_quoted universal_newlines_cons)

lemma csv_reader_quoted:
  "list_all (\<lambda>r. r \<noteq> []) rows \<Longrightarrow> csv_reader (quoted_text rows) = Inr rows"
  using quoted_text_last [of rows] by (simp add: csv_reader_stream stream_quoted_text)

text \<open>C21. Round trip of the tokeniser on quoted fields: any rows, written
  with every field quoted and its quotes doubled, are read back as exactly
  these rows, whatever the fields hold: separators, quotes, line feeds (a
  record then spans several lines), carriage returns, or nothing.\<close>

theorem csv_reader_quoted_roundtrip:
  "list_all (\<lambda>r. r \<noteq> []) rows \<Longrightarrow> csv_reader (quoted_text rows) = Inr rows"
  by (rule csv_reader_quoted)

theorem csv_reader_quoted_roundtrip_witness:
  "list_all (\<lambda>r. r \<noteq> []) [[''a;b'', ''say '' @ [csv_quotechar] @ ''hi'' @ [csv_quotechar]], [''two'' @ [NL] @ ''lines'', '''']]
   \<and> csv_reader (quoted_text [[''a;b'', ''say '' @ [csv_quotechar] @ ''hi'' @ [csv_quotechar]], [''two'' @ [NL] @ ''lines'', '''']]) =
     Inr [[''a;b'', ''say '' @ [csv_quotechar] @ ''hi'' @ [csv_quotechar]], [''two'' @ [NL] @ ''lines'', '''']]"
  using csv_reader_quoted_roundtrip [of "[[''a;b'', ''say '' @ [csv_quotechar] @ ''hi'' @ [csv_quotechar]], [''two'' @ [NL] @ ''lines'', '''']]"]
  by simp

lemma instruments_from_csv_quoted_rows:
  assumes "fs csv_path = Some (quoted_text (header # rows))"
    and "list_all (\<lambda>r. r \<noteq> []) (header # rows)"
    and "list_all (list_all (\<lambda>f. CR \<notin> set f)) (header # rows)"
  shows "instruments_from_csv fs csv_path = Inr (map (\<lambda>r. \<lparr>row = dict_reader_row header r\<rparr>) rows)"
proof -
  have "read_text fs csv_path = Inr (quoted_text (header # rows))"
    using assms(1) quoted_text_no_CR [of "header # rows"] assms(3) by (simp add: read_text_def universal_newlines_id list_all_iff)
  moreover have "csv_reader (quoted_text (header # rows)) = Inr (header # rows)"
    using assms(2) by (rule csv_reader_quoted)
  moreover have "filter (\<lambda>r. r \<noteq> []) rows = rows"
    using assms(2) by (simp add: list_all_iff)
  ultimately show ?thesis by (simp add: instruments_from_csv_def)
qed

text \<open>C22. The loader on an inventory file whose fields are all quoted: one
  instrument per row, in file order, holding DictReader's dictionary of
  the row, for fields of any content without a carriage return (the
  text-mode read would turn it into a line feed).\<close>

theorem instruments_from_csv_quoted:
  assumes "fs csv_path = Some (quoted_text (header # rows))"
    and "list_all (\<lambda>r. r \<noteq> []) (header # rows)"
    and "list_all (list_all (\<lambda>f. CR \<notin> set f)) (header # rows)"
  shows "instruments_from_csv fs csv_path = Inr (map (\<lambda>r. \<lparr>row = dict_reader_row header r\<rparr>) rows)"
  using assms by (rule instruments_from_csv_quoted_rows)

theorem instruments_from_csv_quoted_witness:
  "[''inv.csv'' \<mapsto> quoted_text [[''Student'', ''PRINT''], [''Kari; Ola'', ''TRUE'']]] ''inv.csv'' =
     Some (quoted_text ([''Student'', ''PRINT''] # [[''Kari; Ola'', ''TRUE'']]))
   \<and> list_all (\<lambda>r. r \<noteq> []) ([''Student'', ''PRINT''] # [[''Kari; Ola'', ''TRUE'']])
   \<and> list_all (list_all (\<lambda>f. CR \<notin> set f)) ([''Student'', ''PRINT''] # [[''Kari; Ola'', ''TRUE'']])
   \<and> instruments_from_csv [''inv.csv'' \<mapsto> quoted_text [[''Student'', ''PRINT''], [''Kari; Ola'', ''TRUE'']]] ''inv.csv'' =
     Inr [\<lparr>row = dict_reader_row [''Student'', ''PRINT''] [''Kari; Ola'', ''TRUE'']\<rparr>]"
proof -
  have h1: "[''inv.csv'' \<mapsto> quoted_text [[''Student'', ''PRINT''], [''Kari; Ola'', ''TRUE'']]] ''inv.csv'' =
     Some (quoted_text ([''Student'', ''PRINT''] # [[''Kari; Ola'', ''TRUE'']]))" by simp
  have h2: "list_all (\<lambda>r. r \<noteq> []) ([''Student'', ''PRINT''] # [[''Kari; Ola'', ''TRUE'']])" by simp
  have h3: "list_all (list_all (\<lambda>f. CR \<notin> set f)) ([''Student'', ''PRINT''] # [[''Kari; Ola'', ''TRUE'']])"
    by simp
  show ?thesis using h1 h2 h3 instruments_from_csv_quoted [where fs="[''inv.csv'' \<mapsto> quoted_text [[''Student'', ''PRINT''], [''Kari; Ola'', ''TRUE'']]]"
      and csv_path="''inv.csv''" and header="[''Student'', ''PRINT'']" and rows="[[''Kari; Ola'', ''TRUE'']]", OF h1 h2 h3]
    by simp
qed

text \<open>C23. The loader on a quoted inventory file whose fields may hold
  carriage returns: the file is opened without \<open>newline=''\<close>, so the
  text-mode read translates every CR LF and every lone CR into a line feed
  before the tokeniser sees it, also inside quoted fields; each instrument
  then holds DictReader's dictionary of its row with these line breaks
  translated, in the keys and in the values.\<close>

theorem instruments_from_csv_quoted_newlines:
  assumes "fs csv_path = Some (quoted_text (header # rows))"
    and "list_all (\<lambda>r. r \<noteq> []) (header # rows)"
  shows "instruments_from_csv fs csv_path =
           Inr (map (\<lambda>r. \<lparr>row = dict_reader_row (map universal_newlines header) (map universal_newlines r)\<rparr>) rows)"
proof -
  let ?rows' = "map (map universal_newlines) (header # rows)"
  have "read_text fs csv_path = Inr (quoted_text ?rows')"
    using assms(1) by (simp add: read_text_def universal_newlines_quoted_text del: list.map)
  moreover have "csv_reader (quoted_text ?rows') = Inr ?rows'"
    using assms(2) by (intro csv_reader_quoted) (simp add: list_all_iff)
  moreover have "filter (\<lambda>r. r \<noteq> []) (map (map universal_newlines) rows) = map (map universal_newlines) rows"
    using assms(2) by (simp add: list_all_iff)
  ultimately show ?thesis by (simp add: instruments_from_csv_def comp_def)
qed

theorem instruments_from_csv_quoted_newlines_witness:
  "[''inv.csv'' \<mapsto> quoted_text [[''Student''], [''Kari'' @ [CR, NL] @ ''Ola'' @ [CR] @ ''Nor'']]] ''inv.csv'' =
     Some (quoted_text ([''Student''] # [[''Kari'' @ [CR, NL] @ ''Ola'' @ [CR] @ ''Nor'']]))
   \<and> list_all (\<lambda>r. r \<noteq> []) ([''Student''] # [[''Kari'' @ [CR, NL] @ ''Ola'' @ [CR] @ ''Nor'']])
   \<and> instruments_from_csv [''inv.csv'' \<mapsto> quoted_text [[''Student''], [''Kari'' @ [CR, NL] @ ''Ola'' @ [CR] @ ''Nor'']]] ''inv.csv'' =
     Inr [\<lparr>row = dict_reader_row [''Student''] [''Kari'' @ [NL] @ ''Ola'' @ [NL] @ ''Nor'']\<rparr>]"
proof -
  have h1: "[''inv.csv'' \<mapsto> quoted_text [[''Student''], [''Kari'' @ [CR, NL] @ ''Ola'' @ [CR] @ ''Nor'']]] ''inv.csv'' =
     Some (quoted_text ([''Student''] # [[''Kari'' @ [CR, NL] @ ''Ola'' @ [CR] @ ''Nor'']]))" by simp
  have h2: "list_all (\<lambda>r. r \<noteq> []) ([''Student''] # [[''Kari'' @ [CR, NL] @ ''Ola'' @ [CR] @ ''Nor'']])" by simp
  have u1: "map universal_newlines [''Student''] = [''Student'']" by code_simp
  have u2: "map universal_newlines [''Kari'' @ [CR, NL] @ ''Ola'' @ [CR] @ ''Nor''] = [''Kari'' @ [NL] @ ''Ola'' @ [NL] @ ''Nor'']"
    by code_simp
  show ?thesis
    using h1 h2 instruments_from_csv_quoted_newlines [where fs="[''inv.csv'' \<mapsto> quoted_text [[''Student''], [''Kari'' @ [CR, NL] @ ''Ola'' @ [CR] @ ''Nor'']]]"
      and csv_path="''inv.csv''" and header="[''Student'']" and rows="[[''Kari'' @ [CR, NL] @ ''Ola'' @ [CR] @ ''Nor'']]", OF h1 h2]
    unfolding u1 u2 [symmetric] by simp
qed

end
