(* ===== verification/ReaderLoop.thy ===== *)
theory ReaderLoop
  imports Loader
begin

text \<open>The loader as the code iterates it. \<open>for row in reader\<close> calls
  \<open>DictReader.__next__\<close>, which reads the header on its first call and
  skips blank records (\<open>while row == []\<close>); each record comes from
  \<open>Reader_iternext\<close>, which resets the parser and feeds it whole lines
  until a line leaves it in \<open>START_RECORD\<close>, and at the end of the input
  closes a field still open or raises \<open>StopIteration\<close>. The loop over the
  records is a \<open>partial_function\<close> in the option monad: that it returns
  on every input is a theorem, because every record consumes a line.\<close>

section \<open>Reader_iternext\<close>

text \<open>One call of \<open>next(reader)\<close> from parser state \<open>p\<close> on the remaining
  lines: \<open>None\<close> is \<open>StopIteration\<close>, \<open>Some (fields, rest)\<close> a record and
  the lines left.\<close>

fun reader_next :: "csv_parser \<Rightarrow> string list \<Rightarrow> (string list \<times> string list) option py_result" where
  "reader_next p [] =
     (if pfield p \<noteq> [] \<or> pstate p = InQuotedField then Inr (Some (pfields (save_field p), []))
      else Inr None)"
| "reader_next p (l # ls) =
     py_bind (parse_line p (map Chr l @ [EOL])) (\<lambda>p'.
       if pstate p' = StartRecord then Inr (Some (pfields p', ls)) else reader_next p' ls)"

section \<open>The loop of instruments_from_csv\<close>

text \<open>The data records after the header: a blank record is skipped, any
  other becomes \<open>Instrument(row)\<close>, appended to \<open>instruments\<close>.\<close>

partial_function (option) dict_rows_loop ::
  "string list \<Rightarrow> string list \<Rightarrow> instrument list \<Rightarrow> instrument list py_result option" where
  "dict_rows_loop names ls acc =
     (case reader_next parser_reset ls of
        Inl e \<Rightarrow> Some (Inl e)
      | Inr None \<Rightarrow> Some (Inr acc)
      | Inr (Some (r, ls')) \<Rightarrow>
          (if r = [] then dict_rows_loop names ls' acc
           else dict_rows_loop names ls' (acc @ [\<lparr>row = dict_reader_row names r\<rparr>])))"

text \<open>\<open>instruments_from_csv\<close>: open in text mode, read the header record
  (none in an empty file), then loop over the data records.\<close>

definition instruments_from_csv_loop :: "files \<Rightarrow> path \<Rightarrow> instrument list py_result option" where
  "instruments_from_csv_loop fs csv_path =
     (case read_text fs csv_path of
        Inl e \<Rightarrow> Some (Inl e)
      | Inr contents \<Rightarrow>
          (case reader_next parser_reset (split_lines [] contents) of
             Inl e \<Rightarrow> Some (Inl e)
           | Inr None \<Rightarrow> Some (Inr [])
           | Inr (Some (names, ls)) \<Rightarrow> dict_rows_loop names ls []))"

section \<open>Lemmas\<close>

lemma reader_next_reset_Nil [simp]: "reader_next parser_reset [] = Inr None"
  by (simp add: parser_reset_def)

lemma reader_next_consumes:
  "reader_next p ls = Inr (Some (r, ls')) \<Longrightarrow> length ls' < length ls \<or> ls = [] \<and> ls' = []"
proof (induction p ls rule: reader_next.induct)
  case (2 p l ls)
  from "2.prems" obtain p' where pl: "parse_line p (map Chr l @ [EOL]) = Inr p'"
    and rest: "(if pstate p' = StartRecord then Inr (Some (pfields p', ls)) else reader_next p' ls)
                 = Inr (Some (r, ls'))"
    by (auto simp: py_bind_eq_Inr)
  show ?case
  proof (cases "pstate p' = StartRecord")
    case True
    with rest show ?thesis by simp
  next
    case False
    with rest "2.IH" [of p'] show ?thesis by auto
  qed
qed (simp split: if_splits)

lemma reader_records_next:
  "reader_records p ls =
     (case reader_next p ls of
        Inl e \<Rightarrow> Inl e
      | Inr None \<Rightarrow> Inr []
      | Inr (Some (r, ls')) \<Rightarrow> py_bind (reader_records parser_reset ls') (\<lambda>rows. Inr (r # rows)))"
proof (induction p ls rule: reader_next.induct)
  case (1 p)
  then show ?case by (simp add: parser_reset_def)
next
  case (2 p l ls)
  then show ?case
    by (cases "parse_line p (map Chr l @ [EOL])") simp_all
qed
lemma reader_next_reset_shorter:
  "reader_next parser_reset ls = Inr (Some (r, ls')) \<Longrightarrow> length ls' < length ls"
  using reader_next_consumes [of parser_reset ls r ls'] by (cases ls) (auto simp: parser_reset_def)

lemma dict_rows_loop_terminates: "dict_rows_loop names ls acc \<noteq> None"
proof (induction "length ls" arbitrary: ls acc rule: less_induct)
  case less
  show ?case
  proof (cases "reader_next parser_reset ls")
    case (Inr res)
    show ?thesis
    proof (cases res)
      case (Some rl)
      obtain r ls' where rl: "rl = (r, ls')" by (cases rl)
      with Inr Some have "length ls' < length ls" by (simp add: reader_next_reset_shorter)
      with Inr Some rl less show ?thesis by (subst dict_rows_loop.simps) simp
    qed (subst dict_rows_loop.simps, simp add: Inr)
  qed (subst dict_rows_loop.simps, simp)
qed

lemma dict_rows_loop_eq:
  "dict_rows_loop names ls acc =
     Some (py_bind (reader_records parser_reset ls) (\<lambda>rows.
       Inr (acc @ map (\<lambda>r. \<lparr>row = dict_reader_row names r\<rparr>) (filter (\<lambda>r. r \<noteq> []) rows))))"
proof (induction "length ls" arbitrary: ls acc rule: less_induct)
  case less
  show ?case
  proof (cases "reader_next parser_reset ls")
    case (Inl e)
    then show ?thesis by (subst dict_rows_loop.simps) (simp add: reader_records_next [of _ ls])
  next
    case (Inr res)
    show ?thesis
    proof (cases res)
      case None
      with Inr show ?thesis by (subst dict_rows_loop.simps) (simp add: reader_records_next [of _ ls])
    next
      case (Some rl)
      obtain r ls' where rl: "rl = (r, ls')" by (cases rl)
      with Inr Some have "length ls' < length ls" by (simp add: reader_next_reset_shorter)
      with Inr Some rl less show ?thesis
        by (subst dict_rows_loop.simps) (simp add: reader_records_next [of _ ls] py_bind_assoc)
    qed
  qed
qed

lemma instruments_from_csv_loop_terminates: "instruments_from_csv_loop fs csv_path \<noteq> None"
proof (cases "read_text fs csv_path")
  case (Inr contents)
  then show ?thesis
    using dict_rows_loop_terminates
    by (auto simp: instruments_from_csv_loop_def split: sum.split option.split)
qed (simp add: instruments_from_csv_loop_def)

lemma instruments_from_csv_loop_eq:
  "instruments_from_csv_loop fs csv_path = Some (instruments_from_csv fs csv_path)"
proof (cases "read_text fs csv_path")
  case (Inr contents)
  then show ?thesis
    unfolding instruments_from_csv_loop_def instruments_from_csv_def csv_reader_def
    by (simp add: reader_records_next [of parser_reset "split_lines [] contents"] dict_rows_loop_eq py_bind_assoc comp_def
        split: sum.split option.split)
qed (simp add: instruments_from_csv_loop_def instruments_from_csv_def)

end
