(* ===== verification/DictRow.thy ===== *)
theory DictRow
  imports Loader
begin

text \<open>The whole dictionary \<open>csv.DictReader\<close> returns for a record, as
  Python builds it: an insertion-ordered \<open>dict\<close> (an association list,
  keys in first-insertion order), filled by \<open>dict(zip(fieldnames, row))\<close>,
  then \<open>d[restkey] = row[lf:]\<close> for a row longer than the header
  (\<open>restkey = None\<close>) or \<open>d[key] = restval\<close> for each missing column of a
  shorter one (\<open>restval = None\<close>). The instruments of the model keep only
  the string keys, the view \<open>row_dict\<close>; the lemmas show that this view of
  the full dictionary is \<open>dict_reader_row\<close>, and what the full dictionary
  adds.\<close>

section \<open>Keys, values and dict assignment\<close>

datatype dict_key = KeyStr string | KeyNone

datatype dict_val = VStr string | VNone | VList "string list"

text \<open>\<open>d[k] = v\<close>: a present key keeps its place and takes the new value,
  a new key goes to the end.\<close>

fun dict_set :: "'k \<Rightarrow> 'v \<Rightarrow> ('k \<times> 'v) list \<Rightarrow> ('k \<times> 'v) list" where
  "dict_set k v [] = [(k, v)]"
| "dict_set k v ((a, b) # ps) = (if a = k then (k, v) # ps else (a, b) # dict_set k v ps)"

text \<open>\<open>dict(pairs)\<close>: the assignments in order.\<close>

definition dict_of_pairs :: "('k \<times> 'v) list \<Rightarrow> ('k \<times> 'v) list" where
  "dict_of_pairs ps = foldl (\<lambda>d (k, v). dict_set k v d) [] ps"

section \<open>DictReader.__next__\<close>

definition dict_reader_full :: "string list \<Rightarrow> string list \<Rightarrow> (dict_key \<times> dict_val) list" where
  "dict_reader_full fieldnames r =
     (let d = dict_of_pairs (zip (map KeyStr fieldnames) (map VStr r));
          lf = length fieldnames; lr = length r in
      if lf < lr then dict_set KeyNone (VList (drop lf r)) d
      else if lr < lf then foldl (\<lambda>d key. dict_set (KeyStr key) VNone d) d (drop lr fieldnames)
      else d)"

text \<open>The view the accessors of \<open>Instrument\<close> read: string keys only.\<close>

fun str_view_val :: "dict_val \<Rightarrow> pyval option" where
  "str_view_val (VStr s) = Some (PStr s)"
| "str_view_val VNone = Some PNone"
| "str_view_val (VList xs) = None"

definition str_view :: "(dict_key \<times> dict_val) list \<Rightarrow> row_dict" where
  "str_view d k = Option.bind (map_of d (KeyStr k)) str_view_val"

section \<open>Lemmas\<close>

lemma map_of_dict_set [simp]: "map_of (dict_set k v ps) = (map_of ps)(k \<mapsto> v)"
  by (induction k v ps rule: dict_set.induct) (auto simp: fun_eq_iff)

lemma map_of_foldl_dict_set:
  "map_of (foldl (\<lambda>d (k, v). dict_set k v d) d0 ps) = map_of d0 ++ map_of (rev ps)"
  by (induction ps arbitrary: d0) (auto simp: map_add_def fun_eq_iff split: option.split)
lemma map_of_map_KeyStr:
  "map_of (map (\<lambda>(a, b). (KeyStr a, f b)) ps) (KeyStr k) = map_option f (map_of ps k)"
  by (induction ps) auto

lemma map_of_zip_KeyStr:
  "map_of (rev (zip (map KeyStr xs) (map f ys))) (KeyStr k) = map_option f (map_of (rev (zip xs ys)) k)"
  by (simp add: zip_map_map rev_map map_of_map_KeyStr)

lemma map_of_foldl_const:
  "map_of (foldl (\<lambda>d key. dict_set (f key) v d) d0 ks) = map_of d0 ++ map_of (map (\<lambda>k. (f k, v)) ks)"
proof (induction ks arbitrary: d0)
  case (Cons k ks)
  show ?case
  proof (rule ext)
    fix x
    have c: "map_of (map (\<lambda>k. (f k, v)) ks) x \<in> {None, Some v}"
      by (induction ks) auto
    show "map_of (foldl (\<lambda>d key. dict_set (f key) v d) d0 (k # ks)) x =
        (map_of d0 ++ map_of (map (\<lambda>k. (f k, v)) (k # ks))) x"
      using Cons.IH [of "dict_set (f k) v d0"] c by (auto simp: map_add_def split: option.split)
  qed
qed simp

lemma map_of_KeyStr_const:
  "map_of (map (\<lambda>k. (KeyStr k, v)) ks) (KeyStr x) = map_of (map (\<lambda>k. (k, v)) ks) x"
  by (induction ks) auto

lemma str_view_val_VStr [simp]: "Option.bind (map_option VStr x) str_view_val = map_option PStr x"
  by (cases x) simp_all

lemma map_of_zip_pstr:
  "map_of (rev (zip fieldnames (map PStr r))) k = map_option PStr (map_of (rev (zip fieldnames r)) k)"
  by (simp add: zip_map2 rev_map map_of_map)

lemma dict_set_new: "k \<notin> set (map fst d) \<Longrightarrow> dict_set k v d = d @ [(k, v)]"
  by (induction k v d rule: dict_set.induct) auto

lemma foldl_dict_set_distinct:
  "distinct (map fst (d0 @ ps)) \<Longrightarrow> foldl (\<lambda>d (k, v). dict_set k v d) d0 ps = d0 @ ps"
proof (induction ps arbitrary: d0)
  case (Cons p ps)
  obtain k v where p: "p = (k, v)" by (cases p)
  with Cons.prems have "dict_set k v d0 = d0 @ [(k, v)]" by (simp add: dict_set_new)
  with Cons p show ?case by simp
qed simp

lemma foldl_dict_set_const_distinct:
  "distinct (map fst d0 @ map f ks) \<Longrightarrow>
   foldl (\<lambda>d key. dict_set (f key) v d) d0 ks = d0 @ map (\<lambda>k. (f k, v)) ks"
proof (induction ks arbitrary: d0)
  case (Cons k ks)
  then have "dict_set (f k) v d0 = d0 @ [(f k, v)]" by (simp add: dict_set_new)
  with Cons show ?case by simp
qed simp

lemma dict_of_pairs_zip_distinct:
  "distinct fieldnames \<Longrightarrow>
   dict_of_pairs (zip (map KeyStr fieldnames) (map VStr r)) = zip (map KeyStr fieldnames) (map VStr r)"
  unfolding dict_of_pairs_def
  by (rule foldl_dict_set_distinct [of "[]", simplified])
    (simp add: map_fst_zip_take distinct_map inj_on_def distinct_take)

lemma str_view_dict_reader_full: "str_view (dict_reader_full fieldnames r) = dict_reader_row fieldnames r"
proof (rule ext)
  fix k
  let ?d = "dict_of_pairs (zip (map KeyStr fieldnames) (map VStr r))"
  have d: "map_of ?d (KeyStr k) = map_option VStr (map_of (rev (zip fieldnames r)) k)"
    by (simp add: dict_of_pairs_def map_of_foldl_dict_set map_of_zip_KeyStr)
  show "str_view (dict_reader_full fieldnames r) k = dict_reader_row fieldnames r k"
  proof (cases "length fieldnames < length r")
    case True
    then show ?thesis using d
      by (simp add: dict_reader_full_def str_view_def dict_reader_row_def map_of_zip_pstr
          split: option.split)
  next
    case False
    let ?rv = "map_of (map (\<lambda>x. (KeyStr x, VNone)) (drop (length r) fieldnames))"
    have full: "map_of (dict_reader_full fieldnames r) (KeyStr k) = (map_of ?d ++ ?rv) (KeyStr k)"
      using False by (auto simp: dict_reader_full_def Let_def map_of_foldl_const)
    have rv: "?rv (KeyStr k) = (if k \<in> set (drop (length r) fieldnames) then Some VNone else None)"
      by (simp add: map_of_KeyStr_const map_of_const_keys)
    show ?thesis using d full rv
      by (auto simp: str_view_def dict_reader_row_def map_of_zip_pstr map_add_def map_of_const_keys
          split: option.split)
  qed
qed

text \<open>C28. The whole dictionary for a header of distinct names: the keys in
  header order with the row's fields, then either the \<open>None\<close> key holding
  the surplus fields of a longer row, or the missing columns with
  \<open>None\<close> for a shorter one.\<close>

theorem dict_reader_full_distinct:
  assumes "distinct fieldnames"
  shows "dict_reader_full fieldnames r =
    zip (map KeyStr fieldnames) (map VStr r)
    @ (if length fieldnames < length r then [(KeyNone, VList (drop (length fieldnames) r))]
       else map (\<lambda>k. (KeyStr k, VNone)) (drop (length r) fieldnames))"
proof -
  let ?z = "zip (map KeyStr fieldnames) (map VStr r)"
  have z: "map fst ?z = map KeyStr (take (length r) fieldnames)"
    by (simp add: map_fst_zip_take take_map min_def)
  show ?thesis
  proof (cases "length fieldnames < length r")
    case True
    have "KeyNone \<notin> set (map fst ?z)" using z by auto
    with True assms show ?thesis
      by (simp add: dict_reader_full_def dict_of_pairs_zip_distinct dict_set_new)
  next
    case False
    have "distinct (map fst ?z @ map KeyStr (drop (length r) fieldnames))"
      using assms z
      by (simp add: distinct_map inj_on_def flip: map_append)
    note fold = foldl_dict_set_const_distinct [OF this, of VNone]
    show ?thesis
    proof (cases "length r < length fieldnames")
      case True
      with fold assms show ?thesis by (simp add: dict_reader_full_def dict_of_pairs_zip_distinct)
    next
      case eq: False
      with False assms show ?thesis by (simp add: dict_reader_full_def dict_of_pairs_zip_distinct)
    qed
  qed
qed

theorem dict_reader_full_distinct_witness:
  "distinct [''Category'', ''PRINT'']
   \<and> dict_reader_full [''Category'', ''PRINT''] [''Violin'', ''TRUE'', ''extra''] =
     [(KeyStr ''Category'', VStr ''Violin''), (KeyStr ''PRINT'', VStr ''TRUE''), (KeyNone, VList [''extra''])]"
proof -
  have d: "distinct [''Category'', ''PRINT'']" by simp
  show ?thesis using d dict_reader_full_distinct [OF d, of "[''Violin'', ''TRUE'', ''extra'']"] by simp
qed
end
