(* ===== verification/Spec2Isabelle.thy ===== *)
theory Spec2Isabelle
  imports Pipeline CsvQuoted ReaderLoop DictRow
begin

text \<open>
  \<^bold>\<open>GOTag: a verification development of the instrument-tag printer.\<close>

  The program (\<^verbatim>\<open>src/main.py\<close>, \<^verbatim>\<open>src/make_tags.py\<close>) reads a
  semicolon-separated inventory of musical instruments and draws one tag for
  every row whose \<open>PRINT\<close> column is exactly \<open>TRUE\<close>, nine tags (3 x 3
  cells of 69 x 98 mm) to an A4 page. The two scripts are the same program:
  \<^verbatim>\<open>main.py\<close> has hard-coded paths and a literal return address,
  \<^verbatim>\<open>make_tags.py\<close> takes three command-line paths and reads the address
  from a file, once per tag. Their parts, and the theories that model them:

  \<^item> \<^bold>\<open>Prelude\<close>: the Python exceptions (\<open>py_error\<close>), results
    \<open>py_error + 'a\<close> with sequencing \<open>py_bind\<close> (an exception aborts the run),
    the file system \<open>files\<close> (path to contents), and \<open>chunks\<close>, the grouping
    of a list into pages, with its length, snoc and indexing lemmas.
  \<^item> \<^bold>\<open>Instrument\<close>: class \<open>Instrument\<close>. A record holding the row
    dictionary (\<open>string \<rightharpoonup> pyval\<close>, a value being a string or DictReader's
    \<open>None\<close>); each accessor is a subscript raising \<open>KeyError\<close>;
    \<open>print_please\<close> is the exact comparison with \<open>TRUE\<close>.
  \<^item> \<^bold>\<open>Formatter\<close>: \<open>text_from_instrument\<close> (the f-string, character for
    character, with its \<open>len(serial_no) == 0\<close> fallback to \<open>N/A\<close>),
    \<open>replace_new_lines\<close> over a general model of \<open>str.replace\<close>,
    \<open>return_address\<close>, and \<open>address\<close> (a text-mode read, newlines
    translated).
  \<^item> \<^bold>\<open>Canvas\<close>: the part of reportlab the scripts call. A canvas is the
    list of finished pages and the operator stream of the open page;
    \<open>setFont\<close>, \<open>Frame.addFromList\<close> append an operator, \<open>showPage\<close> closes
    the page, \<open>save\<close> closes a non-empty open page and yields the document.
    Rendering of glyphs is not modelled: a frame is recorded with its
    paragraphs (text markup and style).
  \<^item> \<^bold>\<open>Layout\<close>: the \<open>for instrument in instruments\<close> loop of \<open>main()\<close>:
    state \<open>tag_state\<close> (\<open>tag_index\<close>, \<open>page\<close>, \<open>canvas\<close>), one iteration
    \<open>tag_step\<close> = skip unprintable / \<open>open_slot\<close> (page break) /
    \<open>place_tag\<close> (cell, frame, paragraphs), the loop \<open>tag_loop\<close>, and
    \<open>render_tags\<close> (canvas creation, loop, save). Its abstract
    specification \<open>layout_pages\<close> groups the tags of the printable records
    into pages of \<open>rows * cols\<close>; \<open>render_tags_refines\<close> proves the loop
    implements it, through the invariant \<open>layout_inv\<close> kept by every
    printable step (\<open>tag_step_layout_inv\<close>).

  \<^item> \<^bold>\<open>Loader\<close>: \<open>instruments_from_csv\<close>. The file is read in text mode
    (\<open>read_text\<close>: \<open>FileNotFoundError\<close>, universal newlines), split into
    lines after every line feed (\<open>split_lines\<close>), tokenised by the
    character state machine of CPython's \<open>_csv\<close> reader for
    \<open>delimiter=';'\<close>, \<open>quotechar='"'\<close> (\<open>parse_process_char\<close>,
    \<open>parse_line\<close>, \<open>reader_records\<close>, \<open>csv_reader\<close>), and turned into
    dictionaries by \<open>DictReader\<close> (\<open>dict_reader\<close>: first row the
    field names, blank rows skipped, short rows padded with \<open>None\<close>).
  \<^item> \<^bold>\<open>CsvQuoted\<close>: quoted fields. Rows written with every field
    quoted (\<open>quote_field\<close>, \<open>quoted_text\<close>, as \<open>csv.writer\<close> with
    \<open>QUOTE_ALL\<close> writes them) and the reader seen as one stream of
    character and end-of-line events (\<open>eol_stream\<close>,
    \<open>stream_records\<close>), shown equal to the line-by-line reader.
  \<^item> \<^bold>\<open>ReaderLoop\<close>: the loop \<open>for row in reader\<close> of
    \<open>instruments_from_csv\<close> as the code runs it: \<open>Reader_iternext\<close> once
    per record (\<open>reader_next\<close>), DictReader's header and blank-record
    skipping, and the appending loop \<open>dict_rows_loop\<close>, a
    \<open>partial_function\<close> in the option monad.
  \<^item> \<^bold>\<open>DictRow\<close>: the whole dictionary \<open>DictReader\<close> returns
    for a record, an insertion-ordered association list built by dict
    assignment (\<open>dict_set\<close>, \<open>dict_of_pairs\<close>, \<open>dict_reader_full\<close>),
    with the \<open>restkey = None\<close> entry of a long row and the \<open>restval\<close>
    padding of a short one; its string-keyed view \<open>str_view\<close> is the
    \<open>row_dict\<close> the instruments hold.
  \<^item> \<^bold>\<open>MainPy\<close>: \<^verbatim>\<open>src/main.py\<close> as its own module: its copies of
    class \<open>Instrument\<close> (\<open>mp_category\<close> ... \<open>mp_print_please\<close>),
    \<open>mp_text_from_instrument\<close>, \<open>mp_replace_new_lines\<close>, the styles, the
    grid \<open>mp_grid\<close>, and the loop of its \<open>main()\<close> (\<open>mp_place_tag\<close>,
    \<open>mp_tag_step\<close>, \<open>mp_tag_loop\<close>), which \<open>main_py\<close> runs.
  \<^item> \<^bold>\<open>Pipeline\<close>: the two \<open>main()\<close> functions, \<open>make_tags_main\<close>
    (the parsed options as the record \<open>args\<close>, \<open>default_args\<close> the
    defaults) and \<open>main_py\<close>: the loader, then \<open>render_tags\<close> with the
    3 x 3 grid of 69 x 98 mm.

  What the lemmas show, by theory. Formatter: the tag text of a complete
  record (C5), exactly when formatting raises (C6), the newline replacement
  as a per-character rewriting (C7) and its inverse (C9). Layout: the
  refinement of the abstract layout (C1), the page count (C2), the cell of
  the k-th printable record (C3), that unprintable records use no cell (C4),
  that no line feed reaches the markup (C8), the invariant of every
  reachable loop state, proved by rule induction over \<open>tag_reachable\<close>
  (C10), that every frame lies on the A4 page (C11) and that frames of a
  page are disjoint (C12), the error behaviour of the loop (C13, C14), and
  its progress from every reachable state: the next printable record is
  drawn as one frame, in the cell that the number of frames drawn so far
  selects (C25). Loader: that rows written with \<open>';'.join\<close> are read
  back by the tokeniser (C15), the records the loader returns (C16), the
  lookup in a DictReader row (C17) and that every loaded record has the
  header's keys (C24). Pipeline: the error path of a missing inventory
  (C18), that \<^verbatim>\<open>main.py\<close> is \<^verbatim>\<open>make_tags.py\<close> with fixed arguments
  (C19), and the end-to-end refinement from inventory file to document
  (C20). CsvQuoted: the round trip of the tokeniser on quoted fields of any
  content, records spanning lines included (C21), the loader on such a
  file (C22), and the loader on such a file whose fields hold carriage
  returns, which reach the records translated to line feeds (C23). Root:
  the end-to-end refinement through quoted fields (C26). MainPy: the loop
  of \<^verbatim>\<open>main.py\<close>, built from its own copies of the helpers, is the loop
  of \<^verbatim>\<open>make_tags.py\<close> with the literal address (C27). DictRow: the
  whole dictionary for a header of distinct names, key order,
  \<open>restkey\<close> and \<open>restval\<close> entries included (C28); its string-keyed
  view is \<open>dict_reader_row\<close> for every header and row
  (\<open>str_view_dict_reader_full\<close>). ReaderLoop: the loop over the records
  returns on every input (\<open>instruments_from_csv_loop_terminates\<close>) and
  computes what the whole-file model computes
  (\<open>instruments_from_csv_loop_eq\<close>), which justifies the whole-file
  model the other theories use. Every theorem with a hypothesis has a
  witness that applies it to a concrete inventory (\<open>sample_inventory\<close>:
  20 records, 10 printable; the CSV text \<open>sample_csv\<close>; small quoted
  files), evaluated by \<open>simp\<close> or \<open>code_simp\<close>.

  Lengths are millimetres on \<open>nat\<close>: the source's \<open>x * mm\<close> scales every
  coordinate by the same constant, and \<open>math.floor(tag_index / cols)\<close> is
  \<open>tag_index div cols\<close> for the small counters of the loop. Python integers
  are unbounded, so the counters are \<open>nat\<close>. No loop of the program can run
  forever: every loop is a recursion on the input list or on the text
  being scanned, so no fuel is needed; \<open>replace_scan\<close> terminates by the
  length of the remaining text. The one loop whose termination is not
  structural, the iteration over the CSV reader (each call may read any
  number of lines), is a \<open>partial_function (option)\<close>, and that it returns
  is proved (\<open>instruments_from_csv_loop_terminates\<close>) from the fact
  that every record consumes a line.

  Not modelled: the parsing of the argument strings by \<open>argparse\<close> (usage
  errors, \<open>-h\<close>, prefix matching of long options: behaviour of the library
  that varies between Python versions and on which the program's own logic
  does not depend; the model starts from the parsed namespace), the field
  size limit of the \<open>csv\<close> module (a field longer than 131072 characters
  raises \<open>csv.Error\<close>; the model's fields are unbounded), byte
  decoding of files (a file is its decoded text; a \<open>UnicodeDecodeError\<close>
  is outside the model), the typesetting of paragraphs inside a frame
  (reportlab's line breaking and what it does with a paragraph that
  overflows a frame: the model records the paragraphs handed to each frame),
  the parsing of a paragraph's markup by reportlab's \<open>Paragraph\<close>
  constructor, which the model treats as total: on markup its parser
  rejects (an unbalanced tag such as \<open></b>\<close> or a stray \<open><\<close> coming
  from an inventory field, since the fields reach the markup unescaped)
  the real constructor raises \<open>ValueError\<close> and the run stops with no
  document, a path the model does not have; every claim that a run
  succeeds or draws a tag (C1, C20, C25, C26 among them) therefore holds
  under the assumption that reportlab accepts the markup; and the writing
  of the PDF file (a document is its pages of drawing operators: an
  unwritable output path and the encoding of the file are outside the
  model). These are library behaviour below the calls the program makes;
  the program's own decisions all happen above them.
\<close>


section \<open>A run of the whole program\<close>

text \<open>C26. End to end through quoted fields: \<^verbatim>\<open>make_tags.py\<close> on an
  inventory whose fields are all quoted (so that they may hold separators,
  quotes and line breaks) and contain no carriage return, with an address
  file present, saves the abstract layout of the tags of the rows flagged
  for printing. The loader, the tokeniser's quoted states and the layout
  engine compose (provided reportlab's \<open>Paragraph\<close> accepts the markup
  of the tags).\<close>

theorem make_tags_main_quoted_layout:
  assumes inv: "fs (arg_inventory a) = Some (quoted_text (header # rs))"
    and ne: "list_all (\<lambda>r. r \<noteq> []) (header # rs)"
    and nocr: "list_all (list_all (\<lambda>f. CR \<notin> set f)) (header # rs)"
    and adr: "fs (arg_address a) = Some addr"
    and oks: "list_all inst_ok (map (\<lambda>r. \<lparr>row = dict_reader_row header r\<rparr>) rs)"
  shows "make_tags_main a fs =
    Inr (Pdf (arg_output a) (with_prefix [SetFont ''Courier'' 16]
      (layout_pages main_config (universal_newlines addr)
         (tag_texts (map (\<lambda>r. \<lparr>row = dict_reader_row header r\<rparr>) rs)))))"
  using make_tags_main_instruments [OF instruments_from_csv_quoted_rows
      [where fs=fs and csv_path="arg_inventory a" and header=header and rows=rs, OF inv ne nocr] adr oks] .

theorem make_tags_main_quoted_layout_witness:
  "[''./inventory.csv'' \<mapsto> quoted_text (sample_header # [[''Cello; 1/2'', (''Yamaha '' @ [csv_quotechar] @ ''C1'' @ [csv_quotechar]), '''', ''1/2'', ''Ola'', ''TRUE'']]),
    ''./address.txt'' \<mapsto> return_address] (arg_inventory default_args) =
     Some (quoted_text (sample_header # [[''Cello; 1/2'', (''Yamaha '' @ [csv_quotechar] @ ''C1'' @ [csv_quotechar]), '''', ''1/2'', ''Ola'', ''TRUE'']]))
   \<and> list_all (\<lambda>r. r \<noteq> []) (sample_header # [[''Cello; 1/2'', (''Yamaha '' @ [csv_quotechar] @ ''C1'' @ [csv_quotechar]), '''', ''1/2'', ''Ola'', ''TRUE'']])
   \<and> list_all (list_all (\<lambda>f. CR \<notin> set f)) (sample_header # [[''Cello; 1/2'', (''Yamaha '' @ [csv_quotechar] @ ''C1'' @ [csv_quotechar]), '''', ''1/2'', ''Ola'', ''TRUE'']])
   \<and> [''./inventory.csv'' \<mapsto> quoted_text (sample_header # [[''Cello; 1/2'', (''Yamaha '' @ [csv_quotechar] @ ''C1'' @ [csv_quotechar]), '''', ''1/2'', ''Ola'', ''TRUE'']]),
      ''./address.txt'' \<mapsto> return_address] (arg_address default_args) = Some return_address
   \<and> list_all inst_ok (map (\<lambda>r. \<lparr>row = dict_reader_row sample_header r\<rparr>)
        [[''Cello; 1/2'', (''Yamaha '' @ [csv_quotechar] @ ''C1'' @ [csv_quotechar]), '''', ''1/2'', ''Ola'', ''TRUE'']])
   \<and> make_tags_main default_args
       [''./inventory.csv'' \<mapsto> quoted_text (sample_header # [[''Cello; 1/2'', (''Yamaha '' @ [csv_quotechar] @ ''C1'' @ [csv_quotechar]), '''', ''1/2'', ''Ola'', ''TRUE'']]),
        ''./address.txt'' \<mapsto> return_address] =
     Inr (Pdf (arg_output default_args) (with_prefix [SetFont ''Courier'' 16]
       (layout_pages main_config (universal_newlines return_address)
         (tag_texts (map (\<lambda>r. \<lparr>row = dict_reader_row sample_header r\<rparr>)
            [[''Cello; 1/2'', (''Yamaha '' @ [csv_quotechar] @ ''C1'' @ [csv_quotechar]), '''', ''1/2'', ''Ola'', ''TRUE'']])))))"
proof -
  let ?rs = "[[''Cello; 1/2'', (''Yamaha '' @ [csv_quotechar] @ ''C1'' @ [csv_quotechar]), '''', ''1/2'', ''Ola'', ''TRUE'']]"
  let ?fs = "[''./inventory.csv'' \<mapsto> quoted_text (sample_header # ?rs), ''./address.txt'' \<mapsto> return_address]"
  have h1: "?fs (arg_inventory default_args) = Some (quoted_text (sample_header # ?rs))"
    by (simp add: default_args_def)
  have h2: "list_all (\<lambda>r. r \<noteq> []) (sample_header # ?rs)" by (simp add: sample_header_def)
  have h3: "list_all (list_all (\<lambda>f. CR \<notin> set f)) (sample_header # ?rs)" by (simp add: sample_header_def)
  have h4: "?fs (arg_address default_args) = Some return_address" by (simp add: default_args_def)
  have h5: "list_all inst_ok (map (\<lambda>r. \<lparr>row = dict_reader_row sample_header r\<rparr>) ?rs)" by code_simp
  show ?thesis using h1 h2 h3 h4 h5 make_tags_main_quoted_layout [OF h1 h2 h3 h4 h5] by blast
qed

end
